theory Spec2Isabelle
  imports Complex_Main
begin

section \<open>Retail inventory and order management: the data model\<close>

text \<open>
  The services of this repository keep no state of their own: every read and write is a
  round trip to a hosted table store (Supabase). The four tables are modelled as lists of
  rows in insertion order.

  Prices and totals are Python floats. A float value is the real number it denotes; the
  two float operations of the order service round, and how they round depends on the
  platform and on the Python version (the builtin \<open>sum\<close> changed its float algorithm in
  3.12). They are therefore parameters of the model: \<open>int_times fl q p\<close> is the product
  \<open>q * p\<close> of an integer and a float, and \<open>float_sum fl xs\<close> is what the builtin \<open>sum\<close>
  returns on a non-empty sequence of floats. Every statement below about \<open>create_order\<close>
  holds for all such operations \<open>fl\<close>.
\<close>

record float_ops =
  int_times :: "int \<Rightarrow> real \<Rightarrow> real"
  float_sum :: "real list \<Rightarrow> real"

text \<open>The builtin \<open>sum\<close>: on an empty sequence it returns its start value, the integer 0.\<close>

definition py_sum :: "float_ops \<Rightarrow> real list \<Rightarrow> real" where
  "py_sum fl xs = (if xs = [] then 0 else float_sum fl xs)"

record customer =
  cust_id :: int
  cust_name :: string
  email :: string
  phone :: string
  city :: "string option"

text \<open>The stock column may hold NULL, which the services read as \<open>prod.get("stock") or 0\<close>.\<close>

record product =
  prod_id :: int
  prod_name :: string
  price :: real
  stock :: "int option"

record order_row =
  order_id :: int
  o_cust_id :: int
  total_amount :: real
  status :: string
  order_date :: nat

record order_item =
  item_id :: int
  oi_order_id :: int
  oi_prod_id :: int
  quantity :: int
  oi_price :: real

text \<open>An order dictionary with its \<open>"items"\<close> key, as \<open>get_order\<close> and \<open>create_order\<close> return it.\<close>

record order_view = order_row +
  items :: "order_item list"

text \<open>One requested line \<open>{"prod_id": .., "quantity": ..}\<close> of \<open>create_order\<close>.\<close>

record line =
  l_prod_id :: int
  l_quantity :: int

text \<open>One validated line \<open>{"prod_id": .., "quantity": .., "price": ..}\<close> of \<open>order_items\<close>.\<close>

record priced_line =
  pl_prod_id :: int
  pl_quantity :: int
  pl_price :: real

text \<open>One entry \<open>{"prod_id": .., "delta": ..}\<close> of the ledger \<open>updated_products\<close>.\<close>

record ledger_entry =
  up_prod_id :: int
  delta :: int

datatype product_field = Name string | Price real | Stock int

datatype exn =
    APIError nat
  | TypeError
  | AttributeError
  | OrderError order_msg
  | CustomerError string
  | CustomerNotFoundError int
  | CustomerDeleteError int nat
and order_msg =
    Customer_not_found
  | Product_not_found int
  | Quantity_must_be_positive
  | Out_of_stock string int int
  | Failed_to_create_order exn
  | Order_not_found
  | Only_PLACED_can_be_cancelled
  | Failed_to_cancel_order exn

section \<open>The table store\<close>

text \<open>
  Modelled from the spec: the store behind \<open>get_supabase()\<close> (section 6: insert, select
  with equality filters, order and limit, update, delete). Order ids and item ids are
  generated by the store from counters, and \<open>order_date\<close> is the store's clock at the
  insert. A request that fails raises in the client and leaves every table as it was;
  which requests fail is fixed by the schedule \<open>faults\<close>, consumed one entry per request
  (an exhausted schedule means that every further request succeeds).
\<close>

record tables =
  customers :: "customer list"
  products :: "product list"
  orders :: "order_row list"
  order_items :: "order_item list"
  next_order_id :: int
  next_item_id :: int
  clock :: nat

record supabase =
  db :: tables
  faults :: "exn option list"

type_synonym 'a io = "supabase \<Rightarrow> (exn + 'a) \<times> supabase"

definition execute :: "(tables \<Rightarrow> 'a \<times> tables) \<Rightarrow> 'a io" where
  "execute q s =
     (case faults s of
        Some e # fs \<Rightarrow> (Inl e, s\<lparr>faults := fs\<rparr>)
      | _ \<Rightarrow> (case q (db s) of (r, d) \<Rightarrow> (Inr r, \<lparr>db = d, faults = tl (faults s)\<rparr>)))"

text \<open>\<open>resp.data[0] if resp.data else None\<close>\<close>

definition first_row :: "'a list \<Rightarrow> 'a option" where
  "first_row data = (case data of [] \<Rightarrow> None | r # _ \<Rightarrow> Some r)"

definition stock_or_0 :: "product \<Rightarrow> int" where
  "stock_or_0 p = (case stock p of None \<Rightarrow> 0 | Some n \<Rightarrow> n)"

definition set_field :: "product_field \<Rightarrow> product \<Rightarrow> product" where
  "set_field f p =
     (case f of Name n \<Rightarrow> p\<lparr>prod_name := n\<rparr>
              | Price x \<Rightarrow> p\<lparr>price := x\<rparr>
              | Stock n \<Rightarrow> p\<lparr>stock := Some n\<rparr>)"

definition insert_order :: "int \<Rightarrow> real \<Rightarrow> string \<Rightarrow> tables \<Rightarrow> unit \<times> tables" where
  "insert_order c t st d =
     ((), d\<lparr>orders := orders d @
               [\<lparr>order_id = next_order_id d, o_cust_id = c, total_amount = t,
                 status = st, order_date = clock d\<rparr>],
            next_order_id := next_order_id d + 1,
            clock := Suc (clock d)\<rparr>)"

fun number_items :: "int \<Rightarrow> int \<Rightarrow> priced_line list \<Rightarrow> order_item list" where
  "number_items n oid [] = []"
| "number_items n oid (it # its) =
     \<lparr>item_id = n, oi_order_id = oid, oi_prod_id = pl_prod_id it,
      quantity = pl_quantity it, oi_price = pl_price it\<rparr> # number_items (n + 1) oid its"

definition insert_items :: "int \<Rightarrow> priced_line list \<Rightarrow> tables \<Rightarrow> unit \<times> tables" where
  "insert_items oid payloads d =
     ((), d\<lparr>order_items := order_items d @ number_items (next_item_id d) oid payloads,
            next_item_id := next_item_id d + int (length payloads)\<rparr>)"

section \<open>src/dao/product\_dao.py\<close>

text \<open>
  Modelled from the spec: \<open>product_dao\<close> is imported by the order service but is not among
  the sources. \<open>get_product_by_id\<close> is one filtered select limited to one row, as its
  sibling \<open>get_customer_by_id\<close>; \<open>update_product\<close> is one update filtered by \<open>prod_id\<close>.
\<close>

definition get_product_by_id :: "int \<Rightarrow> product option io" where
  "get_product_by_id pid s =
     (case execute (\<lambda>d. (take 1 (filter (\<lambda>p. prod_id p = pid) (products d)), d)) s of
        (Inl e, s') \<Rightarrow> (Inl e, s')
      | (Inr data, s') \<Rightarrow> (Inr (first_row data), s'))"

definition update_product :: "int \<Rightarrow> product_field list \<Rightarrow> unit io" where
  "update_product pid flds s =
     execute (\<lambda>d. ((), d\<lparr>products :=
        map (\<lambda>p. if prod_id p = pid then fold set_field flds p else p) (products d)\<rparr>)) s"

section \<open>src/dao/customer\_dao.py\<close>

definition get_customer_by_id :: "int \<Rightarrow> customer option io" where
  "get_customer_by_id cid s =
     (case execute (\<lambda>d. (take 1 (filter (\<lambda>c. cust_id c = cid) (customers d)), d)) s of
        (Inl e, s') \<Rightarrow> (Inl e, s')
      | (Inr data, s') \<Rightarrow> (Inr (first_row data), s'))"

definition delete_customer :: "int \<Rightarrow> customer option io" where
  "delete_customer cid s =
     (case execute (\<lambda>d. (take 1 (filter (\<lambda>c. cust_id c = cid) (customers d)), d)) s of
        (Inl e, s1) \<Rightarrow> (Inl e, s1)
      | (Inr data, s1) \<Rightarrow>
          (let row = first_row data in
           case execute (\<lambda>d. ((), d\<lparr>customers :=
                  filter (\<lambda>c. cust_id c \<noteq> cid) (customers d)\<rparr>)) s1 of
             (Inl e, s2) \<Rightarrow> (Inl e, s2)
           | (Inr _, s2) \<Rightarrow> (Inr row, s2)))"

text \<open>The function runs its query and ends without a \<open>return\<close> statement.\<close>

definition dao_list_customers :: "int \<Rightarrow> customer list option io" where
  "dao_list_customers limit s =
     (case execute (\<lambda>d. (take (nat limit) (sort_key cust_id (customers d)), d)) s of
        (Inl e, s') \<Rightarrow> (Inl e, s')
      | (Inr resp, s') \<Rightarrow> (Inr None, s'))"

section \<open>src/dao/order\_dao.py\<close>

definition create_order_record :: "int \<Rightarrow> real \<Rightarrow> string \<Rightarrow> order_row option io" where
  "create_order_record c t st s =
     (case execute (insert_order c t st) s of
        (Inl e, s1) \<Rightarrow> (Inl e, s1)
      | (Inr _, s1) \<Rightarrow>
          (case execute (\<lambda>d. (take 1 (rev (sort_key order_date
                   (filter (\<lambda>r. o_cust_id r = c \<and> total_amount r = t) (orders d)))), d)) s1 of
             (Inl e, s2) \<Rightarrow> (Inl e, s2)
           | (Inr data, s2) \<Rightarrow> (Inr (first_row data), s2)))"

definition create_order_items :: "int \<Rightarrow> priced_line list \<Rightarrow> order_item list io" where
  "create_order_items oid its s =
     (case execute (insert_items oid its) s of
        (Inl e, s1) \<Rightarrow> (Inl e, s1)
      | (Inr _, s1) \<Rightarrow>
          execute (\<lambda>d. (filter (\<lambda>i. oi_order_id i = oid) (order_items d), d)) s1)"

text \<open>\<open>order["items"] = ...\<close>\<close>

definition with_items :: "order_row \<Rightarrow> order_item list \<Rightarrow> order_view" where
  "with_items r its =
     \<lparr>order_id = order_id r, o_cust_id = o_cust_id r, total_amount = total_amount r,
      status = status r, order_date = order_date r, items = its\<rparr>"

definition get_order :: "int \<Rightarrow> order_view option io" where
  "get_order oid s =
     (case execute (\<lambda>d. (take 1 (filter (\<lambda>r. order_id r = oid) (orders d)), d)) s of
        (Inl e, s1) \<Rightarrow> (Inl e, s1)
      | (Inr [], s1) \<Rightarrow> (Inr None, s1)
      | (Inr (r # _), s1) \<Rightarrow>
          (case execute (\<lambda>d. (filter (\<lambda>i. oi_order_id i = oid) (order_items d), d)) s1 of
             (Inl e, s2) \<Rightarrow> (Inl e, s2)
           | (Inr its, s2) \<Rightarrow> (Inr (Some (with_items r its)), s2)))"

definition list_orders_by_customer :: "int \<Rightarrow> order_row list io" where
  "list_orders_by_customer c s =
     execute (\<lambda>d. (rev (sort_key order_date (filter (\<lambda>r. o_cust_id r = c) (orders d))), d)) s"

definition update_order_status :: "int \<Rightarrow> string \<Rightarrow> order_row option io" where
  "update_order_status oid st s =
     (case execute (\<lambda>d. ((), d\<lparr>orders :=
              map (\<lambda>r. if order_id r = oid then r\<lparr>status := st\<rparr> else r) (orders d)\<rparr>)) s of
        (Inl e, s1) \<Rightarrow> (Inl e, s1)
      | (Inr _, s1) \<Rightarrow>
          (case execute (\<lambda>d. (take 1 (filter (\<lambda>r. order_id r = oid) (orders d)), d)) s1 of
             (Inl e, s2) \<Rightarrow> (Inl e, s2)
           | (Inr data, s2) \<Rightarrow> (Inr (first_row data), s2)))"

section \<open>src/services/order\_service.py\<close>

text \<open>The validation loop of \<open>create_order\<close>; \<open>acc\<close> is the list \<open>order_items\<close> built so far.\<close>

fun validate_lines :: "line list \<Rightarrow> priced_line list \<Rightarrow> priced_line list io" where
  "validate_lines [] acc s = (Inr acc, s)"
| "validate_lines (it # its) acc s =
     (case get_product_by_id (l_prod_id it) s of
        (Inl e, s1) \<Rightarrow> (Inl e, s1)
      | (Inr None, s1) \<Rightarrow> (Inl (OrderError (Product_not_found (l_prod_id it))), s1)
      | (Inr (Some p), s1) \<Rightarrow>
          (let qty = l_quantity it in
           if qty \<le> 0 then (Inl (OrderError Quantity_must_be_positive), s1)
           else
             (let stk = stock_or_0 p in
              if stk < qty then (Inl (OrderError (Out_of_stock (prod_name p) stk qty)), s1)
              else validate_lines its
                     (acc @ [\<lparr>pl_prod_id = prod_id p, pl_quantity = qty, pl_price = price p\<rparr>]) s1)))"

text \<open>\<open>total = sum(it["quantity"] * it["price"] for it in order_items)\<close>\<close>

definition order_total :: "float_ops \<Rightarrow> priced_line list \<Rightarrow> real" where
  "order_total fl order_items' =
     py_sum fl (map (\<lambda>it. int_times fl (pl_quantity it) (pl_price it)) order_items')"

text \<open>
  Step 3 of the \<open>try\<close> block: the stock decrements. On an exception the ledger
  \<open>updated_products\<close> built so far is returned with it, since the handler reads it.
\<close>

fun decrement_stocks ::
  "priced_line list \<Rightarrow> ledger_entry list \<Rightarrow> supabase
     \<Rightarrow> ((exn \<times> ledger_entry list) + ledger_entry list) \<times> supabase" where
  "decrement_stocks [] ups s = (Inr ups, s)"
| "decrement_stocks (it # its) ups s =
     (case get_product_by_id (pl_prod_id it) s of
        (Inl e, s1) \<Rightarrow> (Inl (e, ups), s1)
      | (Inr None, s1) \<Rightarrow> (Inl (AttributeError, ups), s1)
      | (Inr (Some p), s1) \<Rightarrow>
          (let new_stock = stock_or_0 p - pl_quantity it in
           case update_product (pl_prod_id it) [Stock new_stock] s1 of
             (Inl e, s2) \<Rightarrow> (Inl (e, ups), s2)
           | (Inr _, s2) \<Rightarrow>
               decrement_stocks its
                 (ups @ [\<lparr>up_prod_id = pl_prod_id it, delta = pl_quantity it\<rparr>]) s2))"

text \<open>
  The \<open>try\<close> block of \<open>create_order\<close>. An exception comes with the values of
  \<open>created_order\<close>, \<open>created_items\<close> and \<open>updated_products\<close> at the moment it is raised.
\<close>

definition place_order ::
  "int \<Rightarrow> real \<Rightarrow> priced_line list \<Rightarrow> supabase
     \<Rightarrow> ((exn \<times> order_row option \<times> order_item list \<times> ledger_entry list) + order_view)
         \<times> supabase" where
  "place_order customer_id total' order_items' s =
     (case create_order_record customer_id total' ''PLACED'' s of
        (Inl e, s1) \<Rightarrow> (Inl (e, None, [], []), s1)
      | (Inr None, s1) \<Rightarrow> (Inl (TypeError, None, [], []), s1)
      | (Inr (Some created_order), s1) \<Rightarrow>
          (case create_order_items (order_id created_order) order_items' s1 of
             (Inl e, s2) \<Rightarrow> (Inl (e, Some created_order, [], []), s2)
           | (Inr created_items, s2) \<Rightarrow>
               (case decrement_stocks order_items' [] s2 of
                  (Inl (e, updated_products), s3) \<Rightarrow>
                    (Inl (e, Some created_order, created_items, updated_products), s3)
                | (Inr updated_products, s3) \<Rightarrow>
                    (Inr (with_items (created_order\<lparr>total_amount := total'\<rparr>) created_items),
                     s3))))"

text \<open>The three compensating actions of the handler, in the order of the source.\<close>

fun restore_stocks :: "ledger_entry list \<Rightarrow> unit io" where
  "restore_stocks [] s = (Inr (), s)"
| "restore_stocks (up # ups) s =
     (case get_product_by_id (up_prod_id up) s of
        (Inl e, s1) \<Rightarrow> (Inl e, s1)
      | (Inr None, s1) \<Rightarrow> restore_stocks ups s1
      | (Inr (Some p), s1) \<Rightarrow>
          (let restored_stock = stock_or_0 p + delta up in
           case update_product (up_prod_id up) [Stock restored_stock] s1 of
             (Inl e, s2) \<Rightarrow> (Inl e, s2)
           | (Inr _, s2) \<Rightarrow> restore_stocks ups s2))"

fun delete_created_items :: "order_item list \<Rightarrow> unit io" where
  "delete_created_items [] s = (Inr (), s)"
| "delete_created_items (it # its) s =
     (case execute (\<lambda>d. ((), d\<lparr>order_items :=
              filter (\<lambda>i. item_id i \<noteq> item_id it) (order_items d)\<rparr>)) s of
        (Inl e, s1) \<Rightarrow> (Inl e, s1)
      | (Inr _, s1) \<Rightarrow> delete_created_items its s1)"

definition delete_created_order :: "order_row option \<Rightarrow> unit io" where
  "delete_created_order created_order s =
     (case created_order of
        None \<Rightarrow> (Inr (), s)
      | Some r \<Rightarrow>
          execute (\<lambda>d. ((), d\<lparr>orders :=
              filter (\<lambda>r'. order_id r' \<noteq> order_id r) (orders d)\<rparr>)) s)"

text \<open>
  The inner \<open>try: ... except Exception: pass\<close> of the handler: one guarded block around
  all three actions (with the tests \<open>if created_items:\<close> and \<open>if created_order:\<close>). The
  value is the store after the block.
\<close>

definition rollback ::
  "ledger_entry list \<Rightarrow> order_item list \<Rightarrow> order_row option \<Rightarrow> supabase \<Rightarrow> supabase" where
  "rollback updated_products created_items created_order s =
     (case restore_stocks updated_products s of
        (Inl e, s1) \<Rightarrow> s1
      | (Inr _, s1) \<Rightarrow>
          (case (if created_items \<noteq> [] then delete_created_items created_items s1
                 else (Inr (), s1)) of
             (Inl e, s2) \<Rightarrow> s2
           | (Inr _, s2) \<Rightarrow> snd (delete_created_order created_order s2)))"

definition create_order :: "float_ops \<Rightarrow> int \<Rightarrow> line list \<Rightarrow> order_view io" where
  "create_order fl customer_id items' s =
     (case get_customer_by_id customer_id s of
        (Inl e, s1) \<Rightarrow> (Inl e, s1)
      | (Inr None, s1) \<Rightarrow> (Inl (OrderError Customer_not_found), s1)
      | (Inr (Some customer), s1) \<Rightarrow>
          (case validate_lines items' [] s1 of
             (Inl e, s2) \<Rightarrow> (Inl e, s2)
           | (Inr order_items', s2) \<Rightarrow>
               (let total' = order_total fl order_items' in
                case place_order customer_id total' order_items' s2 of
                  (Inr created, s3) \<Rightarrow> (Inr created, s3)
                | (Inl (e, created_order, created_items, updated_products), s3) \<Rightarrow>
                    (Inl (OrderError (Failed_to_create_order e)),
                     rollback updated_products created_items created_order s3))))"

text \<open>The stock loop of \<open>cancel_order\<close>.\<close>

fun restock_items :: "order_item list \<Rightarrow> unit io" where
  "restock_items [] s = (Inr (), s)"
| "restock_items (it # its) s =
     (case get_product_by_id (oi_prod_id it) s of
        (Inl e, s1) \<Rightarrow> (Inl e, s1)
      | (Inr None, s1) \<Rightarrow> restock_items its s1
      | (Inr (Some p), s1) \<Rightarrow>
          (let new_stock = stock_or_0 p + quantity it in
           case update_product (oi_prod_id it) [Stock new_stock] s1 of
             (Inl e, s2) \<Rightarrow> (Inl e, s2)
           | (Inr _, s2) \<Rightarrow> restock_items its s2))"

definition cancel_order :: "int \<Rightarrow> order_row option io" where
  "cancel_order oid s =
     (case get_order oid s of
        (Inl e, s1) \<Rightarrow> (Inl e, s1)
      | (Inr None, s1) \<Rightarrow> (Inl (OrderError Order_not_found), s1)
      | (Inr (Some order), s1) \<Rightarrow>
          if status order \<noteq> ''PLACED''
          then (Inl (OrderError Only_PLACED_can_be_cancelled), s1)
          else
            (case restock_items (items order) s1 of
               (Inl e, s2) \<Rightarrow> (Inl (OrderError (Failed_to_cancel_order e)), s2)
             | (Inr _, s2) \<Rightarrow>
                 (case update_order_status oid ''CANCELLED'' s2 of
                    (Inl e, s3) \<Rightarrow> (Inl (OrderError (Failed_to_cancel_order e)), s3)
                  | (Inr updated, s3) \<Rightarrow> (Inr updated, s3))))"

section \<open>src/services/customer\_service.py\<close>

definition remove_customer :: "int \<Rightarrow> customer io" where
  "remove_customer cid s =
     (case get_customer_by_id cid s of
        (Inl e, s1) \<Rightarrow> (Inl e, s1)
      | (Inr None, s1) \<Rightarrow> (Inl (CustomerNotFoundError cid), s1)
      | (Inr (Some cust), s1) \<Rightarrow>
          (case list_orders_by_customer cid s1 of
             (Inl e, s2) \<Rightarrow> (Inl e, s2)
           | (Inr orders', s2) \<Rightarrow>
               if orders' \<noteq> [] then (Inl (CustomerDeleteError cid (length orders')), s2)
               else
                 (case delete_customer cid s2 of
                    (Inl e, s3) \<Rightarrow> (Inl e, s3)
                  | (Inr None, s3) \<Rightarrow> (Inl (CustomerError ''Failed to delete customer''), s3)
                  | (Inr (Some deleted), s3) \<Rightarrow> (Inr deleted, s3))))"

definition list_customers :: "int \<Rightarrow> customer list option io" where
  "list_customers limit s = dao_list_customers limit s"

section \<open>Notions used in the statements\<close>

text \<open>
  \<open>quiet n fs\<close>: the next \<open>n\<close> requests succeed. \<open>well_formed\<close>: the keys the store
  generates are fresh (product ids are a key, order ids, item ids and order dates are below
  the counters, every item row references an order id already handed out).
  \<open>admissible\<close>: every requested line passes the checks of the validation loop, and
  \<open>priced\<close> is the line it appends to \<open>order_items\<close>; \<open>placed_row\<close> is the order row the
  store creates for it. \<open>add_stock\<close> is the read-then-write stock adjustment the three stock
  loops perform on the product table: \<open>take_out\<close> for a decrement, \<open>put_back\<close> for the
  restoration of a ledger entry (\<open>entry\<close> is the entry recorded for a line), \<open>restock\<close> for
  an item of a cancelled order. \<open>shift_stock\<close> is the same adjustment on one row.
  \<open>admission_error\<close> holds of the four errors the validation phase raises.
\<close>

definition quiet :: "nat \<Rightarrow> exn option list \<Rightarrow> bool" where
  "quiet n fs = list_all (\<lambda>f. f = None) (take n fs)"

definition well_formed :: "tables \<Rightarrow> bool" where
  "well_formed d \<longleftrightarrow>
     distinct (map prod_id (products d)) \<and>
     list_all (\<lambda>r. order_id r < next_order_id d \<and> order_date r < clock d) (orders d) \<and>
     list_all (\<lambda>i. item_id i < next_item_id d \<and> oi_order_id i < next_order_id d) (order_items d)"

definition priced :: "product list \<Rightarrow> line \<Rightarrow> priced_line" where
  "priced ps it =
     (case find (\<lambda>p. prod_id p = l_prod_id it) ps of
        None \<Rightarrow> \<lparr>pl_prod_id = l_prod_id it, pl_quantity = l_quantity it, pl_price = 0\<rparr>
      | Some p \<Rightarrow> \<lparr>pl_prod_id = prod_id p, pl_quantity = l_quantity it, pl_price = price p\<rparr>)"

definition admissible :: "product list \<Rightarrow> line list \<Rightarrow> bool" where
  "admissible ps its =
     list_all (\<lambda>it. case find (\<lambda>p. prod_id p = l_prod_id it) ps of
                      None \<Rightarrow> False
                    | Some p \<Rightarrow> 0 < l_quantity it \<and> l_quantity it \<le> stock_or_0 p) its"

definition write_stock :: "int \<Rightarrow> int \<Rightarrow> product list \<Rightarrow> product list" where
  "write_stock pid n ps = map (\<lambda>p. if prod_id p = pid then p\<lparr>stock := Some n\<rparr> else p) ps"

definition add_stock :: "int \<Rightarrow> int \<Rightarrow> product list \<Rightarrow> product list" where
  "add_stock pid n ps =
     (case find (\<lambda>p. prod_id p = pid) ps of
        None \<Rightarrow> ps
      | Some p \<Rightarrow> write_stock pid (stock_or_0 p + n) ps)"

definition entry :: "priced_line \<Rightarrow> ledger_entry" where
  "entry ol = \<lparr>up_prod_id = pl_prod_id ol, delta = pl_quantity ol\<rparr>"

definition take_out :: "priced_line \<Rightarrow> product list \<Rightarrow> product list" where
  "take_out ol ps = add_stock (pl_prod_id ol) (- pl_quantity ol) ps"

fun admission_error :: "exn \<Rightarrow> bool" where
  "admission_error (OrderError Customer_not_found) = True"
| "admission_error (OrderError (Product_not_found _)) = True"
| "admission_error (OrderError Quantity_must_be_positive) = True"
| "admission_error (OrderError (Out_of_stock _ _ _)) = True"
| "admission_error _ = False"

definition shift_stock :: "int \<Rightarrow> int \<Rightarrow> product \<Rightarrow> product" where
  "shift_stock pid n p = (if prod_id p = pid then p\<lparr>stock := Some (stock_or_0 p + n)\<rparr> else p)"

definition put_back :: "ledger_entry \<Rightarrow> product list \<Rightarrow> product list" where
  "put_back up ps = add_stock (up_prod_id up) (delta up) ps"

definition placed_row :: "tables \<Rightarrow> int \<Rightarrow> real \<Rightarrow> order_row" where
  "placed_row d c t =
     \<lparr>order_id = next_order_id d, o_cust_id = c, total_amount = t,
      status = ''PLACED'', order_date = clock d\<rparr>"

definition restock :: "order_item \<Rightarrow> product list \<Rightarrow> product list" where
  "restock it ps = add_stock (oi_prod_id it) (quantity it) ps"

section \<open>A small shop, used for the concrete runs below\<close>

text \<open>
  The float operations without rounding. The prices and quantities of the shop are small
  integers, on which float multiplication and summation are exact, so these are the
  operations of the concrete runs.
\<close>

definition exact_arith :: float_ops where
  "exact_arith = \<lparr>int_times = (\<lambda>q p. of_int q * p), float_sum = sum_list\<rparr>"

definition pen :: product where
  "pen = \<lparr>prod_id = 1, prod_name = ''pen'', price = 10, stock = Some 5\<rparr>"

definition alice :: customer where
  "alice = \<lparr>cust_id = 1, cust_name = ''alice'', email = ''alice@example.org'',
             phone = ''555'', city = None\<rparr>"

definition shop :: supabase where
  "shop = \<lparr>db = \<lparr>customers = [alice], products = [pen], orders = [], order_items = [],
                  next_order_id = 1, next_item_id = 1, clock = 0\<rparr>,
            faults = []\<rparr>"

definition shop_with_order :: supabase where
  "shop_with_order =
     \<lparr>db = \<lparr>customers = [alice], products = [pen\<lparr>stock := Some 2\<rparr>],
            orders = [\<lparr>order_id = 1, o_cust_id = 1, total_amount = 30, status = ''PLACED'',
                       order_date = 0\<rparr>],
            order_items = [\<lparr>item_id = 1, oi_order_id = 1, oi_prod_id = 1, quantity = 3,
                            oi_price = 10\<rparr>],
            next_order_id = 2, next_item_id = 2, clock = 1\<rparr>,
      faults = []\<rparr>"

text \<open>
  The shop at the moment the handler of \<open>create_order\<close> starts, in a run for two lines
  of 2 and 3 pens whose second decrement failed: the order row and both item rows exist
  and the first decrement has been written.
\<close>

definition shop_mid_order :: supabase where
  "shop_mid_order =
     \<lparr>db = \<lparr>customers = [alice], products = [pen\<lparr>stock := Some 3\<rparr>],
            orders = [\<lparr>order_id = 1, o_cust_id = 1, total_amount = 50, status = ''PLACED'',
                       order_date = 0\<rparr>],
            order_items =
              [\<lparr>item_id = 1, oi_order_id = 1, oi_prod_id = 1, quantity = 2, oi_price = 10\<rparr>,
               \<lparr>item_id = 2, oi_order_id = 1, oi_prod_id = 1, quantity = 3, oi_price = 10\<rparr>],
            next_order_id = 2, next_item_id = 3, clock = 1\<rparr>,
      faults = []\<rparr>"

section \<open>Requests, reads and the stock loops\<close>

lemma quiet_0 [simp]: "quiet 0 fs"
  by (simp add: quiet_def)

lemma quiet_Nil [simp]: "quiet n []"
  by (simp add: quiet_def)

lemma quiet_Suc_Cons [simp]: "quiet (Suc n) (f # fs) \<longleftrightarrow> f = None \<and> quiet n fs"
  by (simp add: quiet_def)

lemma quiet_tl: "quiet (Suc n) fs \<Longrightarrow> quiet n (tl fs)"
  by (cases fs) simp_all

lemma quiet_add: "quiet (m + n) fs \<longleftrightarrow> quiet m fs \<and> quiet n (drop m fs)"
proof (induction m arbitrary: fs)
  case 0 show ?case by simp
next
  case (Suc m) show ?case by (cases fs) (simp_all add: Suc)
qed

lemma quiet_replicate: "n \<le> k \<Longrightarrow> quiet n (replicate k None @ F)"
  by (simp add: quiet_def list_all_iff min_def) 

lemma first_row_take1_filter: "first_row (take (Suc 0) (filter P xs)) = find P xs"
  by (induction xs) (simp_all add: first_row_def)

lemma execute_quiet:
  "quiet (Suc n) fs \<Longrightarrow>
   execute q \<lparr>db = d, faults = fs\<rparr> = (Inr (fst (q d)), \<lparr>db = snd (q d), faults = drop (Suc 0) fs\<rparr>)"
  by (cases fs; cases "hd fs") (auto simp: execute_def drop_Suc split: prod.splits)

lemma execute_fault:
  "execute q \<lparr>db = d, faults = Some e # fs\<rparr> = (Inl e, \<lparr>db = d, faults = fs\<rparr>)"
  by (simp add: execute_def)

lemma get_product_by_id_quiet:
  "quiet (Suc n) fs \<Longrightarrow>
   get_product_by_id pid \<lparr>db = d, faults = fs\<rparr> =
     (Inr (find (\<lambda>p. prod_id p = pid) (products d)), \<lparr>db = d, faults = drop (Suc 0) fs\<rparr>)"
  by (simp add: get_product_by_id_def execute_quiet first_row_take1_filter)

lemma get_product_by_id_fault:
  "get_product_by_id pid \<lparr>db = d, faults = Some e # fs\<rparr> = (Inl e, \<lparr>db = d, faults = fs\<rparr>)"
  by (simp add: get_product_by_id_def execute_fault)

lemma get_customer_by_id_quiet:
  "quiet (Suc n) fs \<Longrightarrow>
   get_customer_by_id cid \<lparr>db = d, faults = fs\<rparr> =
     (Inr (find (\<lambda>c. cust_id c = cid) (customers d)), \<lparr>db = d, faults = drop (Suc 0) fs\<rparr>)"
  by (simp add: get_customer_by_id_def execute_quiet first_row_take1_filter)

lemma update_product_quiet:
  "quiet (Suc n) fs \<Longrightarrow>
   update_product pid flds \<lparr>db = d, faults = fs\<rparr> =
     (Inr (), \<lparr>db = d\<lparr>products :=
        map (\<lambda>p. if prod_id p = pid then fold set_field flds p else p) (products d)\<rparr>,
        faults = drop (Suc 0) fs\<rparr>)"
  by (simp add: update_product_def execute_quiet)

lemma update_product_stock_quiet:
  "quiet (Suc n) fs \<Longrightarrow>
   update_product pid [Stock k] \<lparr>db = d, faults = fs\<rparr> =
     (Inr (), \<lparr>db = d\<lparr>products := write_stock pid k (products d)\<rparr>,
              faults = drop (Suc 0) fs\<rparr>)"
  by (simp add: update_product_quiet write_stock_def set_field_def cong: if_cong)

lemma update_product_fault:
  "update_product pid flds \<lparr>db = d, faults = Some e # fs\<rparr> = (Inl e, \<lparr>db = d, faults = fs\<rparr>)"
  by (simp add: update_product_def execute_fault)

lemma validate_lines_quiet:
  "admissible (products d) its \<Longrightarrow> quiet (length its) fs \<Longrightarrow>
   validate_lines its acc \<lparr>db = d, faults = fs\<rparr> =
     (Inr (acc @ map (priced (products d)) its), \<lparr>db = d, faults = drop (length its) fs\<rparr>)"
proof (induction its arbitrary: acc fs)
  case Nil
  then show ?case by simp
next
  case (Cons it its)
  from Cons.prems obtain p where p: "find (\<lambda>p. prod_id p = l_prod_id it) (products d) = Some p"
    and q: "0 < l_quantity it" "l_quantity it \<le> stock_or_0 p" and adm: "admissible (products d) its"
    by (auto simp: admissible_def split: option.splits)
  from Cons.prems have q1: "quiet (Suc 0) fs" and q2: "quiet (length its) (drop (Suc 0) fs)"
    using quiet_add [of "Suc 0" "length its" fs] by simp_all
  show ?case
    using p q Cons.IH [OF adm q2]
    by (simp add: get_product_by_id_quiet [OF q1] priced_def drop_Suc Let_def)
qed

lemma map_prod_id_write_stock [simp]: "map prod_id (write_stock pid n ps) = map prod_id ps"
  by (simp add: write_stock_def)

lemma map_prod_id_add_stock [simp]: "map prod_id (add_stock pid n ps) = map prod_id ps"
  by (simp add: add_stock_def split: option.splits)

lemma find_prod_id_None: "find (\<lambda>p. prod_id p = pid) ps = None \<longleftrightarrow> pid \<notin> prod_id ` set ps"
  by (auto simp: find_None_iff)

lemma prod_ids_add_stock [simp]: "prod_id ` set (add_stock pid n ps) = prod_id ` set ps"
  by (metis map_prod_id_add_stock set_map)

lemma prod_ids_take_out [simp]: "prod_id ` set (take_out ol ps) = prod_id ` set ps"
  by (simp add: take_out_def)

lemma set_field_Stock [simp]: "fold set_field [Stock n] p = p\<lparr>stock := Some n\<rparr>"
  by (simp add: set_field_def)

lemma decrement_stocks_quiet:
  "\<forall>ol\<in>set ols. pl_prod_id ol \<in> prod_id ` set (products d) \<Longrightarrow>
   quiet (2 * length ols) fs \<Longrightarrow>
   decrement_stocks ols acc \<lparr>db = d, faults = fs\<rparr> =
     (Inr (acc @ map entry ols),
      \<lparr>db = d\<lparr>products := fold take_out ols (products d)\<rparr>,
       faults = drop (2 * length ols) fs\<rparr>)"
proof (induction ols arbitrary: acc fs d)
  case Nil
  then show ?case by simp
next
  case (Cons ol ols)
  from Cons.prems obtain p where p: "find (\<lambda>p. prod_id p = pl_prod_id ol) (products d) = Some p"
    using find_prod_id_None [of "pl_prod_id ol" "products d"] by fastforce
  from Cons.prems(2) have q1: "quiet (Suc 0) fs" and q2: "quiet (Suc 0) (drop (Suc 0) fs)"
    and q3: "quiet (2 * length ols) (drop (Suc (Suc 0)) fs)"
    using quiet_add [of "Suc 0" "Suc (2 * length ols)" fs]
      quiet_add [of "Suc 0" "2 * length ols" "drop (Suc 0) fs"] by simp_all
  have ex: "\<forall>ol'\<in>set ols. pl_prod_id ol' \<in>
       prod_id ` set (products (d\<lparr>products := take_out ol (products d)\<rparr>))"
    using Cons.prems(1) by simp
  have step: "write_stock (pl_prod_id ol) (stock_or_0 p - pl_quantity ol) (products d)
              = take_out ol (products d)"
    using p by (simp add: take_out_def add_stock_def)
  show ?case
    using p Cons.IH [OF ex q3, of "acc @ [entry ol]"]
    by (simp add: get_product_by_id_quiet [OF q1] update_product_stock_quiet [OF q2] step
          entry_def Let_def)
qed

section \<open>The admission checks only read\<close>

lemma execute_reads:
  "execute (\<lambda>d. (f d, d)) s = (r, s') \<Longrightarrow> db s' = db s"
  by (auto simp: execute_def split: list.splits option.splits)

lemma get_customer_by_id_db: "get_customer_by_id cid s = (r, s') \<Longrightarrow> db s' = db s"
  by (auto simp: get_customer_by_id_def split: prod.splits sum.splits dest: execute_reads)

lemma get_product_by_id_db: "get_product_by_id pid s = (r, s') \<Longrightarrow> db s' = db s"
  by (auto simp: get_product_by_id_def split: prod.splits sum.splits dest: execute_reads)

lemma validate_lines_db: "validate_lines its acc s = (r, s') \<Longrightarrow> db s' = db s"
proof (induction its arbitrary: acc s)
  case Nil
  then show ?case by simp
next
  case (Cons it its)
  obtain r1 s1 where g: "get_product_by_id (l_prod_id it) s = (r1, s1)"
    by (cases "get_product_by_id (l_prod_id it) s")
  then have d1: "db s1 = db s" by (rule get_product_by_id_db)
  show ?case
  proof (cases r1)
    case (Inl e)
    with Cons.prems g d1 show ?thesis by auto
  next
    case (Inr po)
    show ?thesis
    proof (cases po)
      case None
      with Cons.prems g d1 Inr show ?thesis by auto
    next
      case (Some p)
      with Cons.prems g d1 Inr Cons.IH show ?thesis
        by (auto simp: Let_def split: if_splits)
    qed
  qed
qed

section \<open>Creating the order record and its items; a failing decrement\<close>

lemma insort_key_snoc:
  "f x \<le> f y \<Longrightarrow> insort_key f x (zs @ [y]) = insort_key f x zs @ [y]"
  by (induction zs) simp_all

lemma foldr_insort_key_snoc:
  "\<forall>x\<in>set xs. f x \<le> f y \<Longrightarrow>
   foldr (insort_key f) xs (zs @ [y]) = foldr (insort_key f) xs zs @ [y]"
  by (induction xs) (simp_all add: insort_key_snoc)

lemma sort_key_snoc:
  "\<forall>x\<in>set xs. f x \<le> f y \<Longrightarrow> sort_key f (xs @ [y]) = sort_key f xs @ [y]"
  using foldr_insort_key_snoc [of xs f y "[]"] by (simp add: sort_key_def)

lemma latest_of_snoc:
  "\<forall>x\<in>set xs. f x \<le> f y \<Longrightarrow> P y \<Longrightarrow>
   first_row (take (Suc 0) (rev (sort_key f (filter P (xs @ [y]))))) = Some y"
  by (simp add: sort_key_snoc first_row_def)

lemma first_row_None: "first_row xs = None \<longleftrightarrow> xs = []"
  by (cases xs) (simp_all add: first_row_def)

lemma latest_exists:
  "P y \<Longrightarrow> first_row (take (Suc 0) (rev (sort_key f (filter P (xs @ [y]))))) \<noteq> None"
proof -
  assume "P y"
  then have "filter P (xs @ [y]) \<noteq> []" by simp
  then have "sort_key f (filter P (xs @ [y])) \<noteq> []"
    by (metis length_sort list.size(3) length_0_conv)
  then show ?thesis
    by (cases "rev (sort_key f (filter P (xs @ [y])))") (simp_all add: first_row_def)
qed

lemma create_order_record_quiet:
  assumes "quiet (Suc (Suc n)) fs"
  shows "\<exists>r. create_order_record c t st \<lparr>db = d, faults = fs\<rparr> =
           (Inr (Some r), \<lparr>db = snd (insert_order c t st d), faults = drop (Suc (Suc 0)) fs\<rparr>)
         \<and> (list_all (\<lambda>r'. order_date r' < clock d) (orders d) \<longrightarrow>
              r = \<lparr>order_id = next_order_id d, o_cust_id = c, total_amount = t,
                   status = st, order_date = clock d\<rparr>)"
proof -
  let ?new = "\<lparr>order_id = next_order_id d, o_cust_id = c, total_amount = t,
                   status = st, order_date = clock d\<rparr>"
  let ?P = "\<lambda>r. o_cust_id r = c \<and> total_amount r = t"
  from assms have q1: "quiet (Suc 0) fs" and q2: "quiet (Suc 0) (drop (Suc 0) fs)"
    using quiet_add [of "Suc 0" "Suc n" fs] quiet_add [of "Suc 0" n "drop (Suc 0) fs"] by simp_all
  have P: "?P ?new" by simp
  obtain r where r: "first_row (take (Suc 0) (rev (sort_key order_date
                        (filter ?P (orders d @ [?new]))))) = Some r"
    using latest_exists [of ?P ?new order_date "orders d"] by auto
  have exact: "r = ?new" if "list_all (\<lambda>r'. order_date r' < clock d) (orders d)"
  proof -
    from that have "\<forall>x\<in>set (orders d). order_date x \<le> order_date ?new"
      by (auto simp: list_all_iff intro: less_imp_le)
    from latest_of_snoc [of "orders d" order_date ?new ?P, OF this P] r show ?thesis by simp
  qed
  have "create_order_record c t st \<lparr>db = d, faults = fs\<rparr> =
           (Inr (Some r), \<lparr>db = snd (insert_order c t st d), faults = drop (Suc (Suc 0)) fs\<rparr>)"
    using r by (simp add: create_order_record_def execute_quiet [OF q1] execute_quiet [OF q2]
                  insert_order_def)
  with exact show ?thesis by blast
qed

lemma create_order_items_quiet:
  assumes "quiet (Suc (Suc n)) fs"
  shows "create_order_items oid ols \<lparr>db = d, faults = fs\<rparr> =
           (Inr (filter (\<lambda>i. oi_order_id i = oid) (order_items d)
                   @ number_items (next_item_id d) oid ols),
            \<lparr>db = snd (insert_items oid ols d), faults = drop (Suc (Suc 0)) fs\<rparr>)"
proof -
  from assms have q1: "quiet (Suc 0) fs" and q2: "quiet (Suc 0) (drop (Suc 0) fs)"
    using quiet_add [of "Suc 0" "Suc n" fs] quiet_add [of "Suc 0" n "drop (Suc 0) fs"] by simp_all
  have "filter (\<lambda>i. oi_order_id i = oid) (number_items k oid ols) = number_items k oid ols" for k
    by (induction ols arbitrary: k) simp_all
  then show ?thesis
    by (simp add: create_order_items_def execute_quiet [OF q1] execute_quiet [OF q2]
          insert_items_def)
qed

lemma decrement_stocks_fault:
  "\<forall>ol\<in>set ols. pl_prod_id ol \<in> prod_id ` set (products d) \<Longrightarrow> j < 2 * length ols \<Longrightarrow>
   decrement_stocks ols acc \<lparr>db = d, faults = replicate j None @ Some e # F\<rparr> =
     (Inl (e, acc @ map entry (take (j div 2) ols)),
      \<lparr>db = d\<lparr>products := fold take_out (take (j div 2) ols) (products d)\<rparr>, faults = F\<rparr>)"
proof (induction ols arbitrary: acc j d)
  case Nil
  then show ?case by simp
next
  case (Cons ol ols)
  from Cons.prems obtain p where p: "find (\<lambda>p. prod_id p = pl_prod_id ol) (products d) = Some p"
    using find_prod_id_None [of "pl_prod_id ol" "products d"] by fastforce
  have step: "write_stock (pl_prod_id ol) (stock_or_0 p - pl_quantity ol) (products d)
              = take_out ol (products d)"
    using p by (simp add: take_out_def add_stock_def)
  consider "j = 0" | "j = Suc 0" | j' where "j = Suc (Suc j')"
    by (cases j rule: nat.exhaust) (auto, metis nat.exhaust)
  then show ?case
  proof cases
    case 1
    then show ?thesis by (simp add: get_product_by_id_fault)
  next
    case 2
    have q: "quiet (Suc 0) (None # Some e # F)" by simp
    from 2 p show ?thesis
      by (simp add: get_product_by_id_quiet [OF q] update_product_fault Let_def)
  next
    case 3
    have q1: "quiet (Suc 0) (None # None # replicate j' None @ Some e # F)"
      and q2: "quiet (Suc 0) (None # replicate j' None @ Some e # F)" by simp_all
    have ex: "\<forall>ol'\<in>set ols. pl_prod_id ol' \<in>
       prod_id ` set (products (d\<lparr>products := take_out ol (products d)\<rparr>))"
      using Cons.prems(1) by simp
    have j': "j' < 2 * length ols" using Cons.prems(2) 3 by simp
    from 3 p Cons.IH [OF ex j', of "acc @ [entry ol]"] show ?thesis
      by (simp add: get_product_by_id_quiet [OF q1] update_product_stock_quiet [OF q2]
            step entry_def Let_def)
  qed
qed

section \<open>A failure in the mutating phase\<close>

lemma drop_quiet_prefix:
  "n \<le> k \<Longrightarrow> drop n (replicate k None @ F) = replicate (k - n) None @ F"
  by simp

lemma find_Some_prod_id:
  "find (\<lambda>p. prod_id p = pid) ps = Some p \<Longrightarrow> prod_id p = pid \<and> p \<in> set ps"
  by (auto simp: find_Some_iff)

lemma admissible_line:
  "admissible ps its \<Longrightarrow> it \<in> set its \<Longrightarrow>
   \<exists>p. find (\<lambda>p. prod_id p = l_prod_id it) ps = Some p \<and> 0 < l_quantity it
        \<and> l_quantity it \<le> stock_or_0 p"
  by (cases "find (\<lambda>p. prod_id p = l_prod_id it) ps")
     (auto simp: admissible_def list_all_iff split: option.splits)

lemma admissible_priced:
  assumes "admissible ps its"
  shows "\<forall>ol\<in>set (map (priced ps) its). pl_prod_id ol \<in> prod_id ` set ps"
proof
  fix ol assume "ol \<in> set (map (priced ps) its)"
  then obtain it where it: "it \<in> set its" and ol: "ol = priced ps it" by auto
  from admissible_line [OF assms it] obtain p
    where p: "find (\<lambda>p. prod_id p = l_prod_id it) ps = Some p" by blast
  from find_Some_prod_id [OF p] have "prod_id p \<in> prod_id ` set ps" by blast
  with find_Some_prod_id [OF p] p ol show "pl_prod_id ol \<in> prod_id ` set ps"
    by (simp add: priced_def)
qed

lemma place_order_raises:
  assumes ex: "\<forall>ol\<in>set ols. pl_prod_id ol \<in> prod_id ` set (products d)"
    and j: "j < 2 * length ols + 4"
  shows "\<exists>co cis ups s'. place_order c t ols \<lparr>db = d, faults = replicate j None @ Some e # F\<rparr>
           = (Inl (e, co, cis, ups), s')"
proof -
  let ?new = "\<lparr>order_id = next_order_id d, o_cust_id = c, total_amount = t,
               status = ''PLACED'', order_date = clock d\<rparr>"
  consider "j = 0" | "j = 1" | "j = 2" | "j = 3" | j' where "j = Suc (Suc (Suc (Suc j')))"
    by (metis One_nat_def not0_implies_Suc numeral_2_eq_2 numeral_3_eq_3)
  then show ?thesis
  proof cases
    case 1
    then show ?thesis
      by (simp add: place_order_def create_order_record_def execute_fault)
  next
    case 2
    have q: "quiet (Suc 0) (None # Some e # F)" by simp
    from 2 show ?thesis
      by (simp add: place_order_def create_order_record_def execute_quiet [OF q] execute_fault)
  next
    case 3
    have q: "quiet (Suc (Suc 0)) (None # None # Some e # F)" by simp
    from create_order_record_quiet [OF q, of c t "''PLACED''" d]
    obtain r where "create_order_record c t ''PLACED'' \<lparr>db = d, faults = None # None # Some e # F\<rparr>
        = (Inr (Some r), \<lparr>db = snd (insert_order c t ''PLACED'' d), faults = Some e # F\<rparr>)"
      by auto
    with 3 show ?thesis
      by (simp add: place_order_def numeral_2_eq_2 create_order_items_def execute_fault)
  next
    case 4
    have q: "quiet (Suc (Suc 0)) (None # None # None # Some e # F)" 
      and q': "quiet (Suc 0) (None # Some e # F)" by simp_all
    from create_order_record_quiet [OF q, of c t "''PLACED''" d]
    obtain r where "create_order_record c t ''PLACED''
          \<lparr>db = d, faults = None # None # None # Some e # F\<rparr>
        = (Inr (Some r), \<lparr>db = snd (insert_order c t ''PLACED'' d), faults = None # Some e # F\<rparr>)"
      by auto
    with 4 show ?thesis
      by (simp add: place_order_def numeral_3_eq_3 create_order_items_def
            execute_quiet [OF q'] execute_fault)
  next
    case 5
    let ?fs = "None # None # None # None # replicate j' None @ Some e # F"
    have q: "quiet (Suc (Suc 0)) ?fs"
      and q': "quiet (Suc (Suc 0)) (drop (Suc (Suc 0)) ?fs)" by simp_all
    from create_order_record_quiet [OF q, of c t "''PLACED''" d]
    obtain r where r: "create_order_record c t ''PLACED'' \<lparr>db = d, faults = ?fs\<rparr>
        = (Inr (Some r), \<lparr>db = snd (insert_order c t ''PLACED'' d),
                          faults = drop (Suc (Suc 0)) ?fs\<rparr>)"
      by auto
    note i = create_order_items_quiet [OF q', of "order_id r" ols "snd (insert_order c t ''PLACED'' d)"]
    have ex': "\<forall>ol\<in>set ols. pl_prod_id ol \<in> prod_id ` set (products
        (snd (insert_items (order_id r) ols (snd (insert_order c t ''PLACED'' d)))))"
      using ex by (simp add: insert_items_def insert_order_def)
    have j': "j' < 2 * length ols" using j 5 by simp
    note dec = decrement_stocks_fault [OF ex' j', of "[]" e F]
    from 5 r i dec show ?thesis
      by (simp add: place_order_def)
  qed
qed

section \<open>The compensation when every request succeeds\<close>

lemma rollback_eq:
  "rollback ups created co s =
     (case restore_stocks ups s of
        (Inl e, s1) \<Rightarrow> s1
      | (Inr u, s1) \<Rightarrow>
          (case delete_created_items created s1 of
             (Inl e, s2) \<Rightarrow> s2
           | (Inr u, s2) \<Rightarrow> snd (delete_created_order co s2)))"
  by (cases "created = []") (simp_all add: rollback_def split: prod.splits sum.splits)

lemma restore_stocks_quiet:
  "restore_stocks ups \<lparr>db = d, faults = []\<rparr> =
     (Inr (), \<lparr>db = d\<lparr>products := fold put_back ups (products d)\<rparr>, faults = []\<rparr>)"
proof (induction ups arbitrary: d)
  case Nil
  show ?case by simp
next
  case (Cons up ups)
  have q: "quiet (Suc 0) []" by simp
  show ?case
  proof (cases "find (\<lambda>p. prod_id p = up_prod_id up) (products d)")
    case None
    then show ?thesis
      using Cons.IH [of d]
      by (simp add: get_product_by_id_quiet [OF q] put_back_def add_stock_def)
  next
    case (Some p)
    then have step: "write_stock (up_prod_id up) (stock_or_0 p + delta up) (products d)
                     = put_back up (products d)"
      by (simp add: put_back_def add_stock_def)
    from Some show ?thesis
      using Cons.IH [of "d\<lparr>products := put_back up (products d)\<rparr>"]
      by (simp add: get_product_by_id_quiet [OF q] update_product_stock_quiet [OF q] step Let_def)
  qed
qed

lemma delete_created_items_quiet:
  "delete_created_items created \<lparr>db = d, faults = []\<rparr> =
     (Inr (), \<lparr>db = d\<lparr>order_items :=
                 filter (\<lambda>i. item_id i \<notin> item_id ` set created) (order_items d)\<rparr>, faults = []\<rparr>)"
proof (induction created arbitrary: d)
  case Nil
  show ?case by simp
next
  case (Cons ci created)
  have q: "quiet (Suc 0) []" by simp
  have "filter (\<lambda>i. item_id i \<notin> item_id ` set created)
          (filter (\<lambda>i. item_id i \<noteq> item_id ci) (order_items d))
        = filter (\<lambda>i. item_id i \<notin> item_id ` set (ci # created)) (order_items d)"
    by (auto intro: filter_cong)
  then show ?case
    using Cons.IH [of "d\<lparr>order_items := filter (\<lambda>i. item_id i \<noteq> item_id ci) (order_items d)\<rparr>"]
    by (simp add: execute_quiet [OF q])
qed

lemma rollback_quiet:
  "rollback ups created (Some r) \<lparr>db = d, faults = []\<rparr> =
     \<lparr>db = d\<lparr>products := fold put_back ups (products d),
              order_items := filter (\<lambda>i. item_id i \<notin> item_id ` set created) (order_items d),
              orders := filter (\<lambda>r'. order_id r' \<noteq> order_id r) (orders d)\<rparr>,
      faults = []\<rparr>"
proof -
  have q: "quiet (Suc 0) []" by simp
  show ?thesis
    by (simp add: rollback_eq restore_stocks_quiet delete_created_items_quiet
          delete_created_order_def execute_quiet [OF q])
qed

section \<open>Stock arithmetic on a table with a key\<close>

lemma add_stock_distinct:
  assumes "distinct (map prod_id ps)"
  shows "add_stock pid n ps = map (shift_stock pid n) ps"
proof (cases "find (\<lambda>p. prod_id p = pid) ps")
  case None
  then have "\<forall>p\<in>set ps. prod_id p \<noteq> pid" by (simp add: find_None_iff)
  then have "map (shift_stock pid n) ps = ps"
    by (intro map_idI) (simp add: shift_stock_def)
  with None show ?thesis by (simp add: add_stock_def)
next
  case (Some p)
  from find_Some_prod_id [OF Some] have p: "prod_id p = pid" "p \<in> set ps" by simp_all
  have "q = p" if "q \<in> set ps" "prod_id q = pid" for q
  proof -
    from assms have "inj_on prod_id (set ps)" by (simp add: distinct_map)
    with that p show ?thesis by (auto dest: inj_onD)
  qed
  then have "map (\<lambda>q. if prod_id q = pid then q\<lparr>stock := Some (stock_or_0 p + n)\<rparr> else q) ps
             = map (shift_stock pid n) ps"
    by (intro map_cong) (auto simp: shift_stock_def)
  with Some show ?thesis by (simp add: add_stock_def write_stock_def)
qed

lemma prod_id_shift_stock [simp]: "prod_id (shift_stock pid n p) = prod_id p"
  by (simp add: shift_stock_def)

lemma fold_add_stock:
  "distinct (map prod_id ps) \<Longrightarrow>
   fold (\<lambda>x. add_stock (f x) (g x)) xs ps = map (fold (\<lambda>x. shift_stock (f x) (g x)) xs) ps"
proof (induction xs arbitrary: ps)
  case Nil
  show ?case by simp
next
  case (Cons x xs)
  have d: "distinct (map prod_id (map (shift_stock (f x) (g x)) ps))"
    using Cons.prems by (simp add: comp_def)
  show ?case
    using Cons.IH [OF d] by (simp add: add_stock_distinct [OF Cons.prems])
qed

lemma prod_id_fold_shift [simp]:
  "prod_id (fold (\<lambda>x. shift_stock (f x) (g x)) xs p) = prod_id p"
  by (induction xs arbitrary: p) simp_all

lemma fold_shift_untouched:
  "prod_id p \<notin> f ` set xs \<Longrightarrow> fold (\<lambda>x. shift_stock (f x) (g x)) xs p = p"
  by (induction xs arbitrary: p) (auto simp: shift_stock_def)

lemma fold_shift_stock:
  "stock p = Some k \<Longrightarrow>
   fold (\<lambda>x. shift_stock (f x) (g x)) xs p =
     p\<lparr>stock := Some (k + (\<Sum>x\<leftarrow>xs. if f x = prod_id p then g x else 0))\<rparr>"
proof (induction xs arbitrary: p k)
  case Nil
  then show ?case by simp
next
  case (Cons x xs)
  show ?case
  proof (cases "f x = prod_id p")
    case True
    have "stock (shift_stock (f x) (g x) p) = Some (k + g x)"
      using True Cons.prems by (simp add: shift_stock_def stock_or_0_def)
    from Cons.IH [OF this] True Cons.prems show ?thesis
      by (simp add: shift_stock_def stock_or_0_def add.assoc)
  next
    case False
    then have "shift_stock (f x) (g x) p = p" by (auto simp: shift_stock_def)
    with Cons.IH [OF Cons.prems] False show ?thesis by simp
  qed
qed

section \<open>Decrements undone by the ledger\<close>

lemma sum_list_negated:
  "(\<Sum>x\<leftarrow>xs. if f x = a then - g x else 0) = - (\<Sum>x\<leftarrow>xs. if f x = a then g x else (0::int))"
  by (induction xs) simp_all

lemma shift_back_and_forth:
  assumes "prod_id p \<in> f ` set xs \<longrightarrow> stock p \<noteq> None"
  shows "fold (\<lambda>x. shift_stock (f x) (g x)) xs (fold (\<lambda>x. shift_stock (f x) (- g x)) xs p) = p"
proof (cases "prod_id p \<in> f ` set xs")
  case False
  then show ?thesis by (simp add: fold_shift_untouched)
next
  case True
  with assms obtain k where k: "stock p = Some k" by auto
  let ?t = "\<Sum>x\<leftarrow>xs. if f x = prod_id p then g x else 0"
  have down: "fold (\<lambda>x. shift_stock (f x) (- g x)) xs p = p\<lparr>stock := Some (k - ?t)\<rparr>"
    using fold_shift_stock [OF k, of f "\<lambda>x. - g x" xs] by (simp add: sum_list_negated)
  have "stock (p\<lparr>stock := Some (k - ?t)\<rparr>) = Some (k - ?t)" by simp
  from fold_shift_stock [OF this, of f g xs] down k show ?thesis by simp
qed

lemma restore_after_take_out:
  assumes dist: "distinct (map prod_id ps)"
    and some: "\<forall>p\<in>set ps. prod_id p \<in> pl_prod_id ` set X \<longrightarrow> stock p \<noteq> None"
  shows "fold put_back (map entry X) (fold take_out X ps) = ps"
proof -
  have t: "take_out = (\<lambda>x. add_stock (pl_prod_id x) (- pl_quantity x))"
    by (intro ext) (simp add: take_out_def)
  have b: "put_back \<circ> entry = (\<lambda>x. add_stock (pl_prod_id x) (pl_quantity x))"
    by (intro ext) (simp add: put_back_def entry_def)
  have down: "fold take_out X ps
                = map (fold (\<lambda>x. shift_stock (pl_prod_id x) (- pl_quantity x)) X) ps"
    unfolding t by (rule fold_add_stock [OF dist])
  have dist': "distinct (map prod_id
                 (map (fold (\<lambda>x. shift_stock (pl_prod_id x) (- pl_quantity x)) X) ps))"
    using dist by (simp add: comp_def)
  have "fold put_back (map entry X) (fold take_out X ps)
          = map (fold (\<lambda>x. shift_stock (pl_prod_id x) (pl_quantity x)) X)
              (map (fold (\<lambda>x. shift_stock (pl_prod_id x) (- pl_quantity x)) X) ps)"
    unfolding fold_map b down by (rule fold_add_stock [OF dist'])
  also have "\<dots> = ps"
    using some by (simp add: comp_def shift_back_and_forth map_idI)
  finally show ?thesis .
qed

lemma number_items_ids: "i \<in> set (number_items k oid ols) \<Longrightarrow> k \<le> item_id i"
  by (induction ols arbitrary: k) (auto, force)

lemma admissible_stocked:
  assumes dist: "distinct (map prod_id ps)" and adm: "admissible ps its"
  shows "\<forall>p\<in>set ps. prod_id p \<in> pl_prod_id ` set (map (priced ps) its) \<longrightarrow> stock p \<noteq> None"
proof (intro ballI impI)
  fix p assume p: "p \<in> set ps" and "prod_id p \<in> pl_prod_id ` set (map (priced ps) its)"
  then obtain it where it: "it \<in> set its" and id: "prod_id p = pl_prod_id (priced ps it)"
    by auto
  from admissible_line [OF adm it] obtain p0
    where p0: "find (\<lambda>p. prod_id p = l_prod_id it) ps = Some p0"
      and q: "0 < l_quantity it" "l_quantity it \<le> stock_or_0 p0" by blast
  from find_Some_prod_id [OF p0] have "prod_id p0 = l_prod_id it" "p0 \<in> set ps" by simp_all
  moreover from id p0 have "prod_id p = prod_id p0" by (simp add: priced_def)
  moreover from dist have "inj_on prod_id (set ps)" by (simp add: distinct_map)
  ultimately have "p = p0" using p inj_onD [of prod_id "set ps" p p0] by simp
  with q show "stock p \<noteq> None" by (auto simp: stock_or_0_def split: option.splits)
qed

lemma schedule_split:
  "replicate (Suc (n + Suc (Suc (Suc (Suc j))))) x
     = x # replicate n x @ x # x # x # x # replicate j x"
  by (simp add: replicate_add replicate_app_Cons_same)

section \<open>What the compensating loops leave alone\<close>

lemma update_product_tables:
  "update_product pid flds s = (r, s') \<Longrightarrow>
   orders (db s') = orders (db s) \<and> order_items (db s') = order_items (db s)"
  by (auto simp: update_product_def execute_def split: list.splits option.splits)

lemma restore_stocks_tables:
  "restore_stocks ups s = (r, s') \<Longrightarrow>
   orders (db s') = orders (db s) \<and> order_items (db s') = order_items (db s)"
proof (induction ups arbitrary: s)
  case Nil
  then show ?case by simp
next
  case (Cons up ups)
  obtain r1 s1 where g: "get_product_by_id (up_prod_id up) s = (r1, s1)"
    by (cases "get_product_by_id (up_prod_id up) s")
  then have d1: "db s1 = db s" by (rule get_product_by_id_db)
  show ?case
  proof (cases r1)
    case (Inl e)
    with Cons.prems g d1 show ?thesis by auto
  next
    case (Inr po)
    show ?thesis
    proof (cases po)
      case None
      with Cons.prems g Inr have "restore_stocks ups s1 = (r, s')" by simp
      from Cons.IH [OF this] d1 show ?thesis by simp
    next
      case (Some p)
      obtain r2 s2 where u: "update_product (up_prod_id up) [Stock (stock_or_0 p + delta up)] s1
                              = (r2, s2)"
        by (cases "update_product (up_prod_id up) [Stock (stock_or_0 p + delta up)] s1")
      note t2 = update_product_tables [OF u]
      show ?thesis
      proof (cases r2)
        case (Inl e)
        with Cons.prems g \<open>r1 = Inr po\<close> Some u t2 d1 show ?thesis by (auto simp: Let_def)
      next
        case (Inr x)
        with Cons.prems g \<open>r1 = Inr po\<close> Some u have "restore_stocks ups s2 = (r, s')"
          by (simp add: Let_def)
        from Cons.IH [OF this] t2 d1 show ?thesis by simp
      qed
    qed
  qed
qed

lemma delete_created_items_orders:
  "delete_created_items created s = (r, s') \<Longrightarrow> orders (db s') = orders (db s)"
proof (induction created arbitrary: s)
  case Nil
  then show ?case by simp
next
  case (Cons ci created)
  let ?q = "\<lambda>d. ((), d\<lparr>order_items := filter (\<lambda>i. item_id i \<noteq> item_id ci) (order_items d)\<rparr>)"
  obtain r1 s1 where x: "execute ?q s = (r1, s1)" by (cases "execute ?q s")
  then have o1: "orders (db s1) = orders (db s)"
    by (auto simp: execute_def split: list.splits option.splits)
  show ?case
  proof (cases r1)
    case (Inl e)
    with Cons.prems x o1 show ?thesis by auto
  next
    case (Inr u)
    with Cons.prems x have "delete_created_items created s1 = (r, s')" by simp
    from Cons.IH [OF this] o1 show ?thesis by simp
  qed
qed

section \<open>A run in which every request succeeds\<close>

lemma create_order_succeeds:
  assumes wf: "well_formed (db s)"
    and cust: "customer_id \<in> cust_id ` set (customers (db s))"
    and adm: "admissible (products (db s)) its"
    and q: "quiet (3 * length its + 5) (faults s)"
  shows "create_order fl customer_id its s =
           (Inr (with_items (placed_row (db s) customer_id
                               (order_total fl (map (priced (products (db s))) its)))
                   (number_items (next_item_id (db s)) (next_order_id (db s))
                      (map (priced (products (db s))) its))),
            \<lparr>db = (db s)\<lparr>
                orders := orders (db s) @
                  [placed_row (db s) customer_id (order_total fl (map (priced (products (db s))) its))],
                next_order_id := next_order_id (db s) + 1,
                clock := Suc (clock (db s)),
                order_items := order_items (db s) @
                  number_items (next_item_id (db s)) (next_order_id (db s))
                    (map (priced (products (db s))) its),
                next_item_id := next_item_id (db s) + int (length its),
                products := fold take_out (map (priced (products (db s))) its) (products (db s))\<rparr>,
             faults = drop (3 * length its + 5) (faults s)\<rparr>)"
proof -
  let ?d = "db s"
  let ?n = "length its"
  let ?ols = "map (priced (products ?d)) its"
  let ?t = "order_total fl ?ols"
  let ?new = "placed_row ?d customer_id ?t"
  let ?d1 = "snd (insert_order customer_id ?t ''PLACED'' ?d)"
  let ?items = "number_items (next_item_id ?d) (next_order_id ?d) ?ols"
  let ?d2 = "snd (insert_items (next_order_id ?d) ?ols ?d1)"
  let ?F0 = "faults s"
  define F1 where "F1 = drop (Suc 0) ?F0"
  define F2 where "F2 = drop ?n F1"
  define F3 where "F3 = drop (Suc (Suc 0)) F2"
  define F4 where "F4 = drop (Suc (Suc 0)) F3"
  from wf have old_orders: "\<forall>r\<in>set (orders ?d). order_id r < next_order_id ?d \<and> order_date r < clock ?d"
    and old_items: "\<forall>i\<in>set (order_items ?d).
                      item_id i < next_item_id ?d \<and> oi_order_id i < next_order_id ?d"
    by (simp_all add: well_formed_def list_all_iff)
  have split: "3 * ?n + 5 = Suc 0 + (?n + (Suc (Suc 0) + (Suc (Suc 0) + 2 * ?n)))" by simp
  from q have q1: "quiet (Suc 0) ?F0" and q2: "quiet ?n F1" and q3: "quiet (Suc (Suc 0)) F2"
    and q4: "quiet (Suc (Suc 0)) F3" and q5: "quiet (2 * ?n) F4"
    unfolding split quiet_add F1_def F2_def F3_def F4_def by simp_all
  have s: "s = \<lparr>db = ?d, faults = ?F0\<rparr>" by (cases s) simp
  obtain cu where cu: "find (\<lambda>c. cust_id c = customer_id) (customers ?d) = Some cu"
    using cust by (cases "find (\<lambda>c. cust_id c = customer_id) (customers ?d)")
      (auto simp: find_None_iff)
  have g: "get_customer_by_id customer_id s = (Inr (Some cu), \<lparr>db = ?d, faults = F1\<rparr>)"
    using cu by (subst s) (simp add: get_customer_by_id_quiet [OF q1] F1_def)
  have v: "validate_lines its [] \<lparr>db = ?d, faults = F1\<rparr>
             = (Inr ?ols, \<lparr>db = ?d, faults = F2\<rparr>)"
    by (simp add: validate_lines_quiet [OF adm q2] F2_def)
  have dates: "list_all (\<lambda>r'. order_date r' < clock ?d) (orders ?d)"
    using old_orders by (simp add: list_all_iff)
  from create_order_record_quiet [OF q3, of customer_id ?t "''PLACED''" ?d] dates
  have c1: "create_order_record customer_id ?t ''PLACED'' \<lparr>db = ?d, faults = F2\<rparr>
            = (Inr (Some ?new), \<lparr>db = ?d1, faults = F3\<rparr>)"
    by (auto simp: placed_row_def F3_def)
  have none_yet: "filter (\<lambda>i. oi_order_id i = next_order_id ?d) (order_items ?d1) = []"
    using old_items by (auto simp: insert_order_def filter_empty_conv)
  have c2: "create_order_items (next_order_id ?d) ?ols \<lparr>db = ?d1, faults = F3\<rparr>
            = (Inr ?items, \<lparr>db = ?d2, faults = F4\<rparr>)"
    using none_yet
    by (simp add: create_order_items_quiet [OF q4] F4_def) (simp add: insert_order_def)
  have ex: "\<forall>ol\<in>set ?ols. pl_prod_id ol \<in> prod_id ` set (products ?d2)"
    using admissible_priced [OF adm] by (simp add: insert_items_def insert_order_def)
  have q5': "quiet (2 * length ?ols) F4" using q5 by simp
  have c3: "decrement_stocks ?ols [] \<lparr>db = ?d2, faults = F4\<rparr>
            = (Inr (map entry ?ols),
               \<lparr>db = ?d2\<lparr>products := fold take_out ?ols (products ?d2)\<rparr>,
                faults = drop (2 * ?n) F4\<rparr>)"
    using decrement_stocks_quiet [OF ex q5', of "[]"] by simp
  have p: "place_order customer_id ?t ?ols \<lparr>db = ?d, faults = F2\<rparr>
           = (Inr (with_items (?new\<lparr>total_amount := ?t\<rparr>) ?items),
              \<lparr>db = ?d2\<lparr>products := fold take_out ?ols (products ?d2)\<rparr>,
               faults = drop (2 * ?n) F4\<rparr>)"
    by (simp add: place_order_def c1 c2 c3 placed_row_def)
  have same: "?new\<lparr>total_amount := ?t\<rparr> = ?new" by (simp add: placed_row_def)
  have fs: "drop (2 * ?n) F4 = drop (3 * ?n + 5) ?F0"
  proof -
    have "2 * ?n + (Suc (Suc 0) + (Suc (Suc 0) + (?n + Suc 0))) = 3 * ?n + 5" by simp
    then show ?thesis by (simp only: F1_def F2_def F3_def F4_def drop_drop)
  qed
  show ?thesis
    by (simp add: create_order_def g v p same fs)
       (simp add: insert_items_def insert_order_def placed_row_def)
qed

section \<open>What a successful run implies about the schedule\<close>














section \<open>Totals, captured prices and reading an order back\<close>








section \<open>Cancelling an order and removing a customer\<close>

lemma restock_items_quiet:
  "restock_items its \<lparr>db = d, faults = []\<rparr> =
     (Inr (), \<lparr>db = d\<lparr>products := fold restock its (products d)\<rparr>, faults = []\<rparr>)"
proof (induction its arbitrary: d)
  case Nil
  show ?case by simp
next
  case (Cons it its)
  have q: "quiet (Suc 0) []" by simp
  show ?case
  proof (cases "find (\<lambda>p. prod_id p = oi_prod_id it) (products d)")
    case None
    then show ?thesis
      using Cons.IH [of d]
      by (simp add: get_product_by_id_quiet [OF q] restock_def add_stock_def)
  next
    case (Some p)
    then have step: "write_stock (oi_prod_id it) (stock_or_0 p + quantity it) (products d)
                     = restock it (products d)"
      by (simp add: restock_def add_stock_def)
    from Some show ?thesis
      using Cons.IH [of "d\<lparr>products := restock it (products d)\<rparr>"]
      by (simp add: get_product_by_id_quiet [OF q] update_product_stock_quiet [OF q] step Let_def)
  qed
qed

lemma get_order_quiet:
  "get_order oid \<lparr>db = d, faults = []\<rparr> =
     (Inr (case find (\<lambda>r. order_id r = oid) (orders d) of
             None \<Rightarrow> None
           | Some row \<Rightarrow> Some (with_items row (filter (\<lambda>i. oi_order_id i = oid) (order_items d)))),
      \<lparr>db = d, faults = []\<rparr>)"
proof -
  have q: "quiet (Suc 0) []" by simp
  have f: "find (\<lambda>r. order_id r = oid) (orders d)
             = first_row (take (Suc 0) (filter (\<lambda>r. order_id r = oid) (orders d)))"
    by (simp add: first_row_take1_filter)
  show ?thesis
    by (cases "take (Suc 0) (filter (\<lambda>r. order_id r = oid) (orders d))")
       (simp_all add: get_order_def execute_quiet [OF q] f first_row_def)
qed

lemma find_map_status:
  "find (\<lambda>r. order_id r = oid) rs = Some r \<Longrightarrow>
   find (\<lambda>r. order_id r = oid)
     (map (\<lambda>r'. if order_id r' = oid then r'\<lparr>status := st\<rparr> else r') rs) = Some (r\<lparr>status := st\<rparr>)"
  by (induction rs) (auto split: if_splits)

lemma update_order_status_quiet:
  "find (\<lambda>r. order_id r = oid) (orders d) = Some r \<Longrightarrow>
   update_order_status oid st \<lparr>db = d, faults = []\<rparr> =
     (Inr (Some (r\<lparr>status := st\<rparr>)),
      \<lparr>db = d\<lparr>orders := map (\<lambda>r'. if order_id r' = oid then r'\<lparr>status := st\<rparr> else r')
                              (orders d)\<rparr>, faults = []\<rparr>)"
proof -
  assume r: "find (\<lambda>r. order_id r = oid) (orders d) = Some r"
  have q: "quiet (Suc 0) []" by simp
  show ?thesis
    using find_map_status [OF r, of st]
    by (simp add: update_order_status_def execute_quiet [OF q] first_row_take1_filter)
qed

lemma fold_shift_stock_net:
  "fold (\<lambda>x. shift_stock (f x) (g x)) xs p =
     (if prod_id p \<in> f ` set xs
      then p\<lparr>stock := Some (stock_or_0 p + (\<Sum>x\<leftarrow>xs. if f x = prod_id p then g x else 0))\<rparr>
      else p)"
proof (cases "prod_id p \<in> f ` set xs")
  case False
  then show ?thesis by (simp add: fold_shift_untouched)
next
  case True
  then show ?thesis
  proof (induction xs arbitrary: p)
    case Nil
    then show ?case by simp
  next
    case (Cons x xs)
    show ?case
    proof (cases "f x = prod_id p")
      case hit: True
      have step: "shift_stock (prod_id p) (g x) p = p\<lparr>stock := Some (stock_or_0 p + g x)\<rparr>"
        by (simp add: shift_stock_def)
      have "stock (p\<lparr>stock := Some (stock_or_0 p + g x)\<rparr>) = Some (stock_or_0 p + g x)"
        by simp
      from fold_shift_stock [OF this, of f g xs] hit show ?thesis
        by (simp add: step add.assoc)
    next
      case miss: False
      with Cons.prems have "prod_id p \<in> f ` set xs" by auto
      moreover have "shift_stock (f x) (g x) p = p"
        using miss by (auto simp: shift_stock_def)
      ultimately show ?thesis using Cons.IH [of p] miss by simp
    qed
  qed
qed

lemma list_orders_by_customer_quiet:
  "list_orders_by_customer c \<lparr>db = d, faults = []\<rparr> =
     (Inr (rev (sort_key order_date (filter (\<lambda>r. o_cust_id r = c) (orders d)))),
      \<lparr>db = d, faults = []\<rparr>)"
proof -
  have q: "quiet (Suc 0) []" by simp
  show ?thesis by (simp add: list_orders_by_customer_def execute_quiet [OF q])
qed

lemma delete_customer_quiet:
  "delete_customer cid \<lparr>db = d, faults = []\<rparr> =
     (Inr (find (\<lambda>c. cust_id c = cid) (customers d)),
      \<lparr>db = d\<lparr>customers := filter (\<lambda>c. cust_id c \<noteq> cid) (customers d)\<rparr>, faults = []\<rparr>)"
proof -
  have q: "quiet (Suc 0) []" by simp
  show ?thesis
    by (simp add: delete_customer_def execute_quiet [OF q] first_row_take1_filter Let_def)
qed

lemma sorted_rows_empty [simp]: "sort_key f xs = [] \<longleftrightarrow> xs = []"
  by (metis length_sort length_0_conv)

section \<open>The claims\<close>

text \<open>
  C1. The claim: no call of \<open>create_order\<close> makes a stock negative, also when the list
  names one product in several lines. The code checks each line against the stock read
  before any decrement, so two lines of 3 pens each are admitted against a stock of 5, the
  order is created, and the two decrements leave the stock at \<open>-1\<close>.
\<close>

theorem create_order_duplicate_lines_oversell:
  "\<exists>ov s'. create_order fl 1 [\<lparr>l_prod_id = 1, l_quantity = 3\<rparr>,
                             \<lparr>l_prod_id = 1, l_quantity = 3\<rparr>] shop = (Inr ov, s')
      \<and> map stock (products (db shop)) = [Some 5]
      \<and> map stock (products (db s')) = [Some (- 1)]"
  by (simp add: create_order_def get_customer_by_id_def execute_def first_row_def
        get_product_by_id_def stock_or_0_def order_total_def py_sum_def exact_arith_def place_order_def
        create_order_record_def insert_order_def create_order_items_def insert_items_def
        update_product_def set_field_def with_items_def shop_def alice_def pen_def Let_def)

text \<open>
  C9. \<open>list_customers\<close> never returns a list of customer records: the function of the
  access layer it delegates to runs the query and falls off its end, so whenever the store
  answers the request the result is \<open>None\<close> (a failed request raises instead).
\<close>

theorem list_customers_returns_None:
  "fst (list_customers limit s) \<noteq> Inr (Some rows) \<and>
   (faults s = [] \<longrightarrow> fst (list_customers limit s) = Inr None)"
  by (auto simp: list_customers_def dao_list_customers_def execute_def
           split: list.splits option.splits prod.splits)

theorem list_customers_returns_None_witness:
  "faults shop = [] \<and> fst (list_customers 100 shop) = Inr None"
  using list_customers_returns_None [of 100 shop] by (simp add: shop_def)

text \<open>
  C4. When \<open>create_order\<close> fails with a customer-not-found, product-not-found,
  invalid-quantity or insufficient-stock error, the tables of the store are exactly as
  before the call, whatever the schedule of failing requests.
\<close>

theorem create_order_admission_errors_leave_store:
  assumes "create_order fl customer_id its s = (Inl e, s')" and "admission_error e"
  shows "db s' = db s"
proof -
  obtain r1 s1 where g: "get_customer_by_id customer_id s = (r1, s1)"
    by (cases "get_customer_by_id customer_id s")
  then have d1: "db s1 = db s" by (rule get_customer_by_id_db)
  obtain r2 s2 where v: "validate_lines its [] s1 = (r2, s2)"
    by (cases "validate_lines its [] s1")
  then have d2: "db s2 = db s1" by (rule validate_lines_db)
  from assms g v d1 d2 show ?thesis
    by (auto simp: create_order_def Let_def split: sum.splits option.splits prod.splits)
qed

theorem create_order_admission_errors_leave_store_witness:
  "fst (create_order exact_arith 1 [\<lparr>l_prod_id = 1, l_quantity = 9\<rparr>] shop)
     = Inl (OrderError (Out_of_stock ''pen'' 5 9))
   \<and> admission_error (OrderError (Out_of_stock ''pen'' 5 9))
   \<and> db (snd (create_order exact_arith 1 [\<lparr>l_prod_id = 1, l_quantity = 9\<rparr>] shop)) = db shop"
proof -
  have run: "create_order exact_arith 1 [\<lparr>l_prod_id = 1, l_quantity = 9\<rparr>] shop
               = (Inl (OrderError (Out_of_stock ''pen'' 5 9)), shop)"
    by (simp add: create_order_def get_customer_by_id_def execute_def first_row_def
          get_product_by_id_def stock_or_0_def shop_def alice_def pen_def)
  from create_order_admission_errors_leave_store [OF run] run show ?thesis by simp
qed

text \<open>
  C6. Whenever a mutating step of \<open>create_order\<close> raises (the customer exists, every line
  passes validation, and the first failing request \<open>e\<close> of the schedule hits the order
  insert, the item insert or a stock decrement), the caller receives the error that wraps
  \<open>e\<close>. The rest \<open>F\<close> of the schedule is arbitrary: requests of the compensation may
  fail as well, and none of those failures reaches the caller.
\<close>

theorem create_order_reports_original_cause:
  assumes cust: "customer_id \<in> cust_id ` set (customers (db s))"
    and adm: "admissible (products (db s)) its"
    and sched: "faults s = replicate k None @ Some e # F"
    and k: "length its + 1 \<le> k" "k < 3 * length its + 5"
  shows "fst (create_order fl customer_id its s) = Inl (OrderError (Failed_to_create_order e))"
proof -
  let ?d = "db s"
  let ?n = "length its"
  let ?ols = "map (priced (products ?d)) its"
  have s: "s = \<lparr>db = ?d, faults = replicate k None @ Some e # F\<rparr>"
    using sched by (cases s) simp
  have q1: "quiet (Suc 0) (replicate k None @ Some e # F)"
    using k by (intro quiet_replicate) simp
  have q2: "quiet ?n (replicate (k - Suc 0) None @ Some e # F)"
    using k by (intro quiet_replicate) simp
  obtain cu where cu: "find (\<lambda>c. cust_id c = customer_id) (customers ?d) = Some cu"
    using cust by (cases "find (\<lambda>c. cust_id c = customer_id) (customers ?d)")
      (auto simp: find_None_iff)
  have g: "get_customer_by_id customer_id s
             = (Inr (Some cu), \<lparr>db = ?d, faults = replicate (k - Suc 0) None @ Some e # F\<rparr>)"
    using k cu by (subst s) (simp add: get_customer_by_id_quiet [OF q1])
  have v: "validate_lines its [] \<lparr>db = ?d, faults = replicate (k - Suc 0) None @ Some e # F\<rparr>
             = (Inr ?ols, \<lparr>db = ?d, faults = replicate (k - Suc 0 - ?n) None @ Some e # F\<rparr>)"
    using k by (simp add: validate_lines_quiet [OF adm q2])
  have j: "k - Suc 0 - ?n < 2 * length ?ols + 4" using k by simp
  from place_order_raises [OF admissible_priced [OF adm] j, of customer_id "order_total fl ?ols" e F]
  obtain co cis ups s' where
    "place_order customer_id (order_total fl ?ols) ?ols
       \<lparr>db = ?d, faults = replicate (k - Suc 0 - ?n) None @ Some e # F\<rparr> = (Inl (e, co, cis, ups), s')"
    by blast
  with g v show ?thesis
    by (simp add: create_order_def)
qed

theorem create_order_reports_original_cause_witness:
  "1 \<in> cust_id ` set (customers (db shop))
   \<and> admissible (products (db shop)) [\<lparr>l_prod_id = 1, l_quantity = 2\<rparr>]
   \<and> fst (create_order exact_arith 1 [\<lparr>l_prod_id = 1, l_quantity = 2\<rparr>]
             (shop\<lparr>faults := replicate 7 None @ [Some (APIError 1), Some (APIError 2)]\<rparr>))
       = Inl (OrderError (Failed_to_create_order (APIError 1)))"
proof -
  have c: "1 \<in> cust_id ` set (customers (db shop))"
    by (simp add: shop_def alice_def)
  have a: "admissible (products (db shop)) [\<lparr>l_prod_id = 1, l_quantity = 2\<rparr>]"
    by (simp add: shop_def pen_def admissible_def stock_or_0_def)
  from c a create_order_reports_original_cause
         [of 1 "shop\<lparr>faults := replicate 7 None @ [Some (APIError 1), Some (APIError 2)]\<rparr>"
             "[\<lparr>l_prod_id = 1, l_quantity = 2\<rparr>]" 7 "APIError 1" "[Some (APIError 2)]"]
  show ?thesis by simp
qed

text \<open>
  C3. The claim: when the stock-decrement step fails after the order row and its item rows
  have been created (the failing decrement changing nothing), then after the compensation
  the order row and all item rows are removed, every stock is as before the call, and the
  caller receives the wrapping error. As stated this needs the compensation to succeed,
  which the claim does not say: when a request of the compensation fails as well, rows and
  decrements stay (the counterexample below). Amended: if moreover no request of the
  compensation fails, the conclusion holds. In the theorem the store is well formed, the
  customer exists, every line passes validation, and the one failing request of the schedule
  is a read or a write of the stock-decrement loop.
\<close>

theorem create_order_failed_decrement_is_compensated:
  assumes wf: "well_formed (db s)"
    and cust: "customer_id \<in> cust_id ` set (customers (db s))"
    and adm: "admissible (products (db s)) its"
    and sched: "faults s = replicate k None @ [Some e]"
    and k: "length its + 5 \<le> k" "k < 3 * length its + 5"
  shows "\<exists>s'. create_order fl customer_id its s = (Inl (OrderError (Failed_to_create_order e)), s')
           \<and> orders (db s') = orders (db s)
           \<and> order_items (db s') = order_items (db s)
           \<and> products (db s') = products (db s)
           \<and> customers (db s') = customers (db s)"
proof -
  let ?d = "db s"
  let ?n = "length its"
  let ?ols = "map (priced (products ?d)) its"
  let ?t = "order_total fl ?ols"
  let ?new = "\<lparr>order_id = next_order_id ?d, o_cust_id = customer_id, total_amount = ?t,
               status = ''PLACED'', order_date = clock ?d\<rparr>"
  let ?d1 = "snd (insert_order customer_id ?t ''PLACED'' ?d)"
  let ?items = "number_items (next_item_id ?d) (next_order_id ?d) ?ols"
  let ?d2 = "snd (insert_items (next_order_id ?d) ?ols ?d1)"
  define j where "j = k - ?n - 5"
  have kj: "k = Suc (?n + Suc (Suc (Suc (Suc j))))" and j: "j < 2 * ?n"
    using k by (simp_all add: j_def)
  let ?X = "take (j div 2) ?ols"
  let ?F4 = "replicate j None @ [Some e]"
  let ?F3 = "None # None # ?F4"
  let ?F2 = "None # None # ?F3"
  let ?F1 = "replicate ?n None @ ?F2"
  let ?F0 = "None # ?F1"
  from wf have dist: "distinct (map prod_id (products ?d))"
    and old_orders: "\<forall>r\<in>set (orders ?d). order_id r < next_order_id ?d \<and> order_date r < clock ?d"
    and old_items: "\<forall>i\<in>set (order_items ?d).
                      item_id i < next_item_id ?d \<and> oi_order_id i < next_order_id ?d"
    by (simp_all add: well_formed_def list_all_iff)
  have "replicate k None @ [Some e] = ?F0"
    unfolding kj schedule_split by simp
  with sched have s: "s = \<lparr>db = ?d, faults = ?F0\<rparr>"
    by (cases s) simp
  have q1: "quiet (Suc 0) ?F0" by simp
  have q2: "quiet ?n ?F1" by (simp add: quiet_replicate)
  have q3: "quiet (Suc (Suc 0)) ?F2" by simp
  have q4: "quiet (Suc (Suc 0)) ?F3" by simp
  obtain cu where cu: "find (\<lambda>c. cust_id c = customer_id) (customers ?d) = Some cu"
    using cust by (cases "find (\<lambda>c. cust_id c = customer_id) (customers ?d)")
      (auto simp: find_None_iff)
  have g: "get_customer_by_id customer_id s = (Inr (Some cu), \<lparr>db = ?d, faults = ?F1\<rparr>)"
    using cu by (subst s) (simp add: get_customer_by_id_quiet [OF q1])
  have v: "validate_lines its [] \<lparr>db = ?d, faults = ?F1\<rparr>
             = (Inr ?ols, \<lparr>db = ?d, faults = ?F2\<rparr>)"
    by (simp add: validate_lines_quiet [OF adm q2])
  have dates: "list_all (\<lambda>r'. order_date r' < clock ?d) (orders ?d)"
    using old_orders by (simp add: list_all_iff)
  from create_order_record_quiet [OF q3, of customer_id ?t "''PLACED''" ?d] dates
  have c1: "create_order_record customer_id ?t ''PLACED'' \<lparr>db = ?d, faults = ?F2\<rparr>
            = (Inr (Some ?new), \<lparr>db = ?d1, faults = ?F3\<rparr>)"
    by auto
  have none_yet: "filter (\<lambda>i. oi_order_id i = next_order_id ?d) (order_items ?d1) = []"
    using old_items by (auto simp: insert_order_def filter_empty_conv)
  have c2: "create_order_items (next_order_id ?d) ?ols \<lparr>db = ?d1, faults = ?F3\<rparr>
            = (Inr ?items, \<lparr>db = ?d2, faults = ?F4\<rparr>)"
    using none_yet
    by (simp add: create_order_items_quiet [OF q4]) (simp add: insert_order_def)
  have ex: "\<forall>ol\<in>set ?ols. pl_prod_id ol \<in> prod_id ` set (products ?d2)"
    using admissible_priced [OF adm] by (simp add: insert_items_def insert_order_def)
  have j': "j < 2 * length ?ols" using j by simp
  have c3: "decrement_stocks ?ols [] \<lparr>db = ?d2, faults = ?F4\<rparr>
            = (Inl (e, map entry ?X),
               \<lparr>db = ?d2\<lparr>products := fold take_out ?X (products ?d2)\<rparr>, faults = []\<rparr>)"
    using decrement_stocks_fault [OF ex j', of "[]" e "[]"] by simp
  have p: "place_order customer_id ?t ?ols \<lparr>db = ?d, faults = ?F2\<rparr>
           = (Inl (e, Some ?new, ?items, map entry ?X),
              \<lparr>db = ?d2\<lparr>products := fold take_out ?X (products ?d2)\<rparr>, faults = []\<rparr>)"
    by (simp add: place_order_def c1 c2 c3)
  let ?s' = "rollback (map entry ?X) ?items (Some ?new)
               \<lparr>db = ?d2\<lparr>products := fold take_out ?X (products ?d2)\<rparr>, faults = []\<rparr>"
  have run: "create_order fl customer_id its s = (Inl (OrderError (Failed_to_create_order e)), ?s')"
    by (simp add: create_order_def g v p)
  have "set ?X \<subseteq> set ?ols" by (rule set_take_subset)
  with admissible_stocked [OF dist adm]
  have some: "\<forall>p\<in>set (products ?d). prod_id p \<in> pl_prod_id ` set ?X \<longrightarrow> stock p \<noteq> None"
    by blast
  have prods: "products (db ?s') = products ?d"
    using restore_after_take_out [OF dist some]
    by (simp add: rollback_quiet insert_items_def insert_order_def)
  have "filter (\<lambda>r'. order_id r' \<noteq> next_order_id ?d) (orders ?d) = orders ?d"
    using old_orders by (intro filter_True) auto
  then have ords: "orders (db ?s') = orders ?d"
    by (simp add: rollback_quiet insert_items_def insert_order_def)
  have "filter (\<lambda>i. item_id i \<notin> item_id ` set ?items) (order_items ?d) = order_items ?d"
    using old_items by (intro filter_True) (fastforce dest: number_items_ids)
  moreover have "filter (\<lambda>i. item_id i \<notin> item_id ` set ?items) ?items = []"
    by (simp add: filter_empty_conv)
  ultimately
  have "filter (\<lambda>i. item_id i \<notin> item_id ` set ?items) (order_items ?d @ ?items) = order_items ?d"
    by simp
  then have its: "order_items (db ?s') = order_items ?d"
    by (simp add: rollback_quiet insert_items_def insert_order_def)
  have custs: "customers (db ?s') = customers ?d"
    by (simp add: rollback_quiet insert_items_def insert_order_def)
  from run prods ords its custs show ?thesis by blast
qed

theorem create_order_failed_decrement_is_compensated_witness:
  "well_formed (db shop)
   \<and> 1 \<in> cust_id ` set (customers (db shop))
   \<and> admissible (products (db shop))
         [\<lparr>l_prod_id = 1, l_quantity = 2\<rparr>, \<lparr>l_prod_id = 1, l_quantity = 3\<rparr>]
   \<and> (\<exists>s'. create_order exact_arith 1 [\<lparr>l_prod_id = 1, l_quantity = 2\<rparr>, \<lparr>l_prod_id = 1, l_quantity = 3\<rparr>]
               (shop\<lparr>faults := replicate 9 None @ [Some (APIError 1)]\<rparr>)
             = (Inl (OrderError (Failed_to_create_order (APIError 1))), s')
           \<and> orders (db s') = [] \<and> order_items (db s') = [] \<and> products (db s') = [pen])"
proof -
  have w: "well_formed (db shop)"
    by (simp add: shop_def pen_def well_formed_def)
  have c: "1 \<in> cust_id ` set (customers (db shop))"
    by (simp add: shop_def alice_def)
  have a: "admissible (products (db shop))
             [\<lparr>l_prod_id = 1, l_quantity = 2\<rparr>, \<lparr>l_prod_id = 1, l_quantity = 3\<rparr>]"
    by (simp add: shop_def pen_def admissible_def stock_or_0_def)
  have d: "orders (db shop) = []" "order_items (db shop) = []" "products (db shop) = [pen]"
    by (simp_all add: shop_def)
  from w c a d create_order_failed_decrement_is_compensated
         [of "shop\<lparr>faults := replicate 9 None @ [Some (APIError 1)]\<rparr>" 1
             "[\<lparr>l_prod_id = 1, l_quantity = 2\<rparr>, \<lparr>l_prod_id = 1, l_quantity = 3\<rparr>]"
             9 "APIError 1"]
  show ?thesis by auto
qed

theorem failed_compensation_counterexample:
  "create_order exact_arith 1 [\<lparr>l_prod_id = 1, l_quantity = 2\<rparr>, \<lparr>l_prod_id = 1, l_quantity = 1\<rparr>]
     (shop\<lparr>faults := [None, None, None, None, None, None, None, None, None,
                         Some (APIError 1), None, Some (APIError 2)]\<rparr>)
   = (Inl (OrderError (Failed_to_create_order (APIError 1))),
      \<lparr>db = \<lparr>customers = [alice], products = [pen\<lparr>stock := Some 3\<rparr>],
             orders = [\<lparr>order_id = 1, o_cust_id = 1, total_amount = 30, status = ''PLACED'',
                        order_date = 0\<rparr>],
             order_items =
               [\<lparr>item_id = 1, oi_order_id = 1, oi_prod_id = 1, quantity = 2, oi_price = 10\<rparr>,
                \<lparr>item_id = 2, oi_order_id = 1, oi_prod_id = 1, quantity = 1, oi_price = 10\<rparr>],
             next_order_id = 2, next_item_id = 3, clock = 1\<rparr>,
       faults = []\<rparr>)
   \<and> orders (db shop) = [] \<and> order_items (db shop) = []
   \<and> map stock (products (db shop)) = [Some 5]"
  by (simp add: create_order_def get_customer_by_id_def execute_def first_row_def
        get_product_by_id_def stock_or_0_def order_total_def py_sum_def exact_arith_def
        place_order_def create_order_record_def insert_order_def create_order_items_def
        insert_items_def update_product_def set_field_def with_items_def rollback_def
        shop_def alice_def pen_def)

text \<open>
  C2. The claim: a failure in one compensating action does not prevent the later ones from
  being attempted. The handler has one guarded block around all three actions, so the first
  failure ends the compensation. Amended: the compensating actions run in the order restore
  stock, delete items, delete order inside one guarded block; a failure raised by one of them
  is swallowed and the later actions are not attempted: when the stock restoration fails, no
  item row and no order row is deleted, and when an item deletion fails, no order row is
  deleted.
\<close>

theorem rollback_stops_at_first_failure:
  "(restore_stocks updated_products s = (Inl e, s1) \<longrightarrow>
      rollback updated_products created_items created_order s = s1
      \<and> order_items (db s1) = order_items (db s) \<and> orders (db s1) = orders (db s))
   \<and> (restore_stocks updated_products s = (Inr u, s1)
        \<and> delete_created_items created_items s1 = (Inl e, s2) \<longrightarrow>
      rollback updated_products created_items created_order s = s2
      \<and> orders (db s2) = orders (db s))"
proof -
  have first: "rollback updated_products created_items created_order s = s1
      \<and> order_items (db s1) = order_items (db s) \<and> orders (db s1) = orders (db s)"
    if r: "restore_stocks updated_products s = (Inl e, s1)"
    using restore_stocks_tables [OF r] r by (simp add: rollback_eq)
  have second: "rollback updated_products created_items created_order s = s2
      \<and> orders (db s2) = orders (db s)"
    if r: "restore_stocks updated_products s = (Inr u, s1)"
      and d: "delete_created_items created_items s1 = (Inl e, s2)"
    using restore_stocks_tables [OF r] delete_created_items_orders [OF d] r d
    by (simp add: rollback_eq)
  from first second show ?thesis by blast
qed

theorem rollback_stops_at_first_failure_witness:
  "restore_stocks [\<lparr>up_prod_id = 1, delta = 2\<rparr>]
      (shop_mid_order\<lparr>faults := [Some (APIError 2)]\<rparr>)
     = (Inl (APIError 2), shop_mid_order)
   \<and> rollback [\<lparr>up_prod_id = 1, delta = 2\<rparr>] (order_items (db shop_mid_order))
         (Some \<lparr>order_id = 1, o_cust_id = 1, total_amount = 50, status = ''PLACED'',
                order_date = 0\<rparr>)
         (shop_mid_order\<lparr>faults := [Some (APIError 2)]\<rparr>)
       = shop_mid_order
   \<and> length (order_items (db shop_mid_order)) = 2
   \<and> length (orders (db shop_mid_order)) = 1
   \<and> restore_stocks [\<lparr>up_prod_id = 1, delta = 2\<rparr>]
         (shop_mid_order\<lparr>faults := [None, None, Some (APIError 2)]\<rparr>)
       = (Inr (), shop_mid_order
                    \<lparr>db := (db shop_mid_order)\<lparr>products := [pen]\<rparr>,
                      faults := [Some (APIError 2)]\<rparr>)
   \<and> delete_created_items (order_items (db shop_mid_order))
         (shop_mid_order\<lparr>db := (db shop_mid_order)\<lparr>products := [pen]\<rparr>,
                          faults := [Some (APIError 2)]\<rparr>)
       = (Inl (APIError 2),
          shop_mid_order\<lparr>db := (db shop_mid_order)\<lparr>products := [pen]\<rparr>\<rparr>)
   \<and> rollback [\<lparr>up_prod_id = 1, delta = 2\<rparr>] (order_items (db shop_mid_order))
         (Some \<lparr>order_id = 1, o_cust_id = 1, total_amount = 50, status = ''PLACED'',
                order_date = 0\<rparr>)
         (shop_mid_order\<lparr>faults := [None, None, Some (APIError 2)]\<rparr>)
       = shop_mid_order\<lparr>db := (db shop_mid_order)\<lparr>products := [pen]\<rparr>\<rparr>"
proof -
  let ?ups = "[\<lparr>up_prod_id = 1, delta = 2\<rparr>]"
  let ?created = "order_items (db shop_mid_order)"
  let ?row = "\<lparr>order_id = 1, o_cust_id = 1, total_amount = 50, status = ''PLACED'',
               order_date = 0\<rparr>"
  let ?s = "shop_mid_order\<lparr>faults := [Some (APIError 2)]\<rparr>"
  let ?t = "shop_mid_order\<lparr>faults := [None, None, Some (APIError 2)]\<rparr>"
  let ?t1 = "shop_mid_order\<lparr>db := (db shop_mid_order)\<lparr>products := [pen]\<rparr>,
                            faults := [Some (APIError 2)]\<rparr>"
  let ?t2 = "shop_mid_order\<lparr>db := (db shop_mid_order)\<lparr>products := [pen]\<rparr>\<rparr>"
  have r: "restore_stocks ?ups ?s = (Inl (APIError 2), shop_mid_order)"
    by (simp add: get_product_by_id_def execute_def shop_mid_order_def)
  have r': "restore_stocks ?ups ?t = (Inr (), ?t1)"
    by (simp add: get_product_by_id_def update_product_def execute_def first_row_def
          set_field_def stock_or_0_def shop_mid_order_def pen_def)
  have d: "delete_created_items ?created ?t1 = (Inl (APIError 2), ?t2)"
    by (simp add: execute_def shop_mid_order_def)
  have n: "length (order_items (db shop_mid_order)) = 2" "length (orders (db shop_mid_order)) = 1"
    by (simp_all add: shop_mid_order_def)
  from r rollback_stops_at_first_failure
           [where updated_products = ?ups and s = ?s and e = "APIError 2"
              and ?s1.0 = shop_mid_order and created_items = ?created
              and created_order = "Some ?row"]
  have one: "rollback ?ups ?created (Some ?row) ?s = shop_mid_order"
    by simp
  from r' d rollback_stops_at_first_failure
           [where updated_products = ?ups and s = ?t and e = "APIError 2"
              and ?s1.0 = ?t1 and created_items = ?created
              and created_order = "Some ?row" and u = "()" and ?s2.0 = ?t2]
  have two: "rollback ?ups ?created (Some ?row) ?t = ?t2"
    by simp
  from r r' d n one two show ?thesis by simp
qed

theorem compensation_abandoned_counterexample:
  "create_order exact_arith 1 [\<lparr>l_prod_id = 1, l_quantity = 2\<rparr>, \<lparr>l_prod_id = 1, l_quantity = 3\<rparr>]
     (shop\<lparr>faults := [None, None, None, None, None, None, None, None, None,
                         Some (APIError 1), Some (APIError 2)]\<rparr>)
   = (Inl (OrderError (Failed_to_create_order (APIError 1))),
      \<lparr>db = \<lparr>customers = [alice], products = [pen\<lparr>stock := Some 3\<rparr>],
             orders = [\<lparr>order_id = 1, o_cust_id = 1, total_amount = 50, status = ''PLACED'',
                        order_date = 0\<rparr>],
             order_items =
               [\<lparr>item_id = 1, oi_order_id = 1, oi_prod_id = 1, quantity = 2, oi_price = 10\<rparr>,
                \<lparr>item_id = 2, oi_order_id = 1, oi_prod_id = 1, quantity = 3, oi_price = 10\<rparr>],
             next_order_id = 2, next_item_id = 3, clock = 1\<rparr>,
       faults = []\<rparr>)"
  by (simp add: create_order_def get_customer_by_id_def execute_def first_row_def
        get_product_by_id_def stock_or_0_def order_total_def py_sum_def exact_arith_def place_order_def
        create_order_record_def insert_order_def create_order_items_def insert_items_def
        update_product_def set_field_def with_items_def rollback_def
        shop_def alice_def pen_def)

text \<open>
  C10. For an existing customer and an empty list of lines \<open>create_order\<close> succeeds when
  its five requests are answered: the order returned and stored has status PLACED and total
  0, there are no item rows, and the product table is unchanged.
\<close>

theorem create_order_empty_list:
  assumes wf: "well_formed (db s)"
    and cust: "customer_id \<in> cust_id ` set (customers (db s))"
    and q: "quiet 5 (faults s)"
  shows "\<exists>ov s'. create_order fl customer_id [] s = (Inr ov, s')
           \<and> status ov = ''PLACED'' \<and> total_amount ov = 0 \<and> items ov = []
           \<and> o_cust_id ov = customer_id
           \<and> orders (db s') = orders (db s) @
                 [\<lparr>order_id = order_id ov, o_cust_id = customer_id, total_amount = 0,
                   status = ''PLACED'', order_date = order_date ov\<rparr>]
           \<and> order_items (db s') = order_items (db s)
           \<and> products (db s') = products (db s)"
proof -
  have a: "admissible (products (db s)) []" by (simp add: admissible_def)
  have q': "quiet (3 * length ([]::line list) + 5) (faults s)" using q by simp
  show ?thesis
    using create_order_succeeds [OF wf cust a q']
    by (simp add: with_items_def placed_row_def order_total_def py_sum_def exact_arith_def)
qed

theorem create_order_empty_list_witness:
  "well_formed (db shop) \<and> 1 \<in> cust_id ` set (customers (db shop)) \<and> quiet 5 (faults shop)
   \<and> (\<exists>ov s'. create_order exact_arith 1 [] shop = (Inr ov, s')
           \<and> status ov = ''PLACED'' \<and> total_amount ov = 0 \<and> items ov = []
           \<and> order_items (db s') = [] \<and> products (db s') = [pen])"
proof -
  have w: "well_formed (db shop)"
    by (simp add: shop_def pen_def well_formed_def)
  have c: "1 \<in> cust_id ` set (customers (db shop))"
    by (simp add: shop_def alice_def)
  have q: "quiet 5 (faults shop)"
    by (simp add: shop_def)
  have d: "order_items (db shop) = []" "products (db shop) = [pen]"
    by (simp_all add: shop_def)
  from create_order_empty_list [OF w c q, where fl = exact_arith] w c q d show ?thesis by auto
qed



text \<open>
  C7. With every request answered: cancelling an order whose status is PLACED adds the
  quantity of each of its items to the stock of the item's product (read the current stock,
  add the quantity, write it back; where product ids are a key, each product named by the
  order gains exactly the sum of the quantities of its items), sets the status to CANCELLED
  and returns the updated row. Cancelling an order with any other status fails with the
  invalid-state error and leaves the store as it was.
\<close>

theorem cancel_order_placed_or_not:
  assumes answered: "faults s = []"
    and row: "find (\<lambda>r. order_id r = oid) (orders (db s)) = Some r"
  shows "(status r = ''PLACED'' \<longrightarrow>
            cancel_order oid s =
              (Inr (Some (r\<lparr>status := ''CANCELLED''\<rparr>)),
               \<lparr>db = (db s)\<lparr>
                   products := fold restock (filter (\<lambda>i. oi_order_id i = oid) (order_items (db s)))
                                 (products (db s)),
                   orders := map (\<lambda>r'. if order_id r' = oid then r'\<lparr>status := ''CANCELLED''\<rparr>
                                         else r') (orders (db s))\<rparr>,
                faults = []\<rparr>)
            \<and> (distinct (map prod_id (products (db s))) \<longrightarrow>
                 fold restock (filter (\<lambda>i. oi_order_id i = oid) (order_items (db s)))
                   (products (db s))
                 = map (\<lambda>p. if prod_id p \<in> oi_prod_id `
                                  set (filter (\<lambda>i. oi_order_id i = oid) (order_items (db s)))
                             then p\<lparr>stock := Some (stock_or_0 p +
                                    (\<Sum>i\<leftarrow>filter (\<lambda>i. oi_order_id i = oid) (order_items (db s)).
                                        if oi_prod_id i = prod_id p then quantity i else 0))\<rparr>
                             else p) (products (db s))))
       \<and> (status r \<noteq> ''PLACED'' \<longrightarrow>
            cancel_order oid s = (Inl (OrderError Only_PLACED_can_be_cancelled), s))"
proof -
  let ?d = "db s"
  let ?its = "filter (\<lambda>i. oi_order_id i = oid) (order_items ?d)"
  have s: "s = \<lparr>db = ?d, faults = []\<rparr>" using answered by (cases s) simp
  have g: "get_order oid s = (Inr (Some (with_items r ?its)), s)"
    using row by (subst s, subst (3) s) (simp add: get_order_quiet)
  have not_placed: "cancel_order oid s = (Inl (OrderError Only_PLACED_can_be_cancelled), s)"
    if "status r \<noteq> ''PLACED''"
    using that by (simp add: cancel_order_def g with_items_def)
  have row': "find (\<lambda>r. order_id r = oid)
                (orders (?d\<lparr>products := fold restock ?its (products ?d)\<rparr>)) = Some r"
    using row by simp
  have placed: "cancel_order oid s =
              (Inr (Some (r\<lparr>status := ''CANCELLED''\<rparr>)),
               \<lparr>db = ?d\<lparr>
                   products := fold restock ?its (products ?d),
                   orders := map (\<lambda>r'. if order_id r' = oid then r'\<lparr>status := ''CANCELLED''\<rparr>
                                         else r') (orders ?d)\<rparr>,
                faults = []\<rparr>)"
    if "status r = ''PLACED''"
  proof -
    have "restock_items ?its s
            = (Inr (), \<lparr>db = ?d\<lparr>products := fold restock ?its (products ?d)\<rparr>, faults = []\<rparr>)"
      by (subst s) (simp add: restock_items_quiet)
    with that show ?thesis
      by (simp add: cancel_order_def g with_items_def update_order_status_quiet [OF row'])
  qed
  have net: "fold restock ?its (products ?d)
               = map (\<lambda>p. if prod_id p \<in> oi_prod_id ` set ?its
                           then p\<lparr>stock := Some (stock_or_0 p +
                                  (\<Sum>i\<leftarrow>?its. if oi_prod_id i = prod_id p then quantity i else 0))\<rparr>
                           else p) (products ?d)"
    if dist: "distinct (map prod_id (products ?d))"
  proof -
    have "restock = (\<lambda>it. add_stock (oi_prod_id it) (quantity it))"
      by (intro ext) (simp add: restock_def)
    then have "fold restock ?its (products ?d)
                 = map (fold (\<lambda>it. shift_stock (oi_prod_id it) (quantity it)) ?its) (products ?d)"
      using fold_add_stock [OF dist, of oi_prod_id quantity ?its] by simp
    also have "\<dots> = map (\<lambda>p. if prod_id p \<in> oi_prod_id ` set ?its
                           then p\<lparr>stock := Some (stock_or_0 p +
                                  (\<Sum>i\<leftarrow>?its. if oi_prod_id i = prod_id p then quantity i else 0))\<rparr>
                           else p) (products ?d)"
      by (intro map_cong refl) (rule fold_shift_stock_net)
    finally show ?thesis .
  qed
  from placed net not_placed show ?thesis by blast
qed

theorem cancel_order_placed_or_not_witness:
  "faults shop_with_order = []
   \<and> find (\<lambda>r. order_id r = 1) (orders (db shop_with_order))
       = Some \<lparr>order_id = 1, o_cust_id = 1, total_amount = 30, status = ''PLACED'',
                order_date = 0\<rparr>
   \<and> cancel_order 1 shop_with_order =
       (Inr (Some \<lparr>order_id = 1, o_cust_id = 1, total_amount = 30, status = ''CANCELLED'',
                   order_date = 0\<rparr>),
        \<lparr>db = \<lparr>customers = [alice], products = [pen],
               orders = [\<lparr>order_id = 1, o_cust_id = 1, total_amount = 30,
                          status = ''CANCELLED'', order_date = 0\<rparr>],
               order_items = [\<lparr>item_id = 1, oi_order_id = 1, oi_prod_id = 1, quantity = 3,
                               oi_price = 10\<rparr>],
               next_order_id = 2, next_item_id = 2, clock = 1\<rparr>,
         faults = []\<rparr>)
   \<and> cancel_order 1
        \<lparr>db = \<lparr>customers = [alice], products = [pen],
               orders = [\<lparr>order_id = 1, o_cust_id = 1, total_amount = 30,
                          status = ''CANCELLED'', order_date = 0\<rparr>],
               order_items = [\<lparr>item_id = 1, oi_order_id = 1, oi_prod_id = 1, quantity = 3,
                               oi_price = 10\<rparr>],
               next_order_id = 2, next_item_id = 2, clock = 1\<rparr>,
         faults = []\<rparr> =
       (Inl (OrderError Only_PLACED_can_be_cancelled),
        \<lparr>db = \<lparr>customers = [alice], products = [pen],
               orders = [\<lparr>order_id = 1, o_cust_id = 1, total_amount = 30,
                          status = ''CANCELLED'', order_date = 0\<rparr>],
               order_items = [\<lparr>item_id = 1, oi_order_id = 1, oi_prod_id = 1, quantity = 3,
                               oi_price = 10\<rparr>],
               next_order_id = 2, next_item_id = 2, clock = 1\<rparr>,
         faults = []\<rparr>)"
proof -
  let ?row = "\<lparr>order_id = 1, o_cust_id = 1, total_amount = 30, status = ''PLACED'',
               order_date = 0\<rparr>"
  let ?row' = "\<lparr>order_id = 1, o_cust_id = 1, total_amount = 30, status = ''CANCELLED'',
                order_date = 0\<rparr>"
  let ?after = "\<lparr>db = \<lparr>customers = [alice], products = [pen],
               orders = [?row'],
               order_items = [\<lparr>item_id = 1, oi_order_id = 1, oi_prod_id = 1, quantity = 3,
                               oi_price = 10\<rparr>],
               next_order_id = 2, next_item_id = 2, clock = 1\<rparr>,
         faults = []\<rparr>"
  have f: "faults shop_with_order = []" by (simp add: shop_with_order_def)
  have r: "find (\<lambda>r. order_id r = 1) (orders (db shop_with_order)) = Some ?row"
    by (simp add: shop_with_order_def)
  have f': "faults ?after = []" by simp
  have r': "find (\<lambda>r. order_id r = 1) (orders (db ?after)) = Some ?row'" by simp
  from cancel_order_placed_or_not [OF f r]
  have one: "cancel_order 1 shop_with_order = (Inr (Some ?row'), ?after)"
    by (simp add: shop_with_order_def pen_def restock_def add_stock_def write_stock_def
          stock_or_0_def)
  from cancel_order_placed_or_not [OF f' r']
  have two: "cancel_order 1 ?after = (Inl (OrderError Only_PLACED_can_be_cancelled), ?after)"
    by simp
  from f r one two show ?thesis by simp
qed

text \<open>
  C8. With every request answered, for an existing customer: when the customer owns one
  or more orders (the status is not looked at) \<open>remove_customer\<close> fails with the delete
  error and the store is unchanged; when the customer owns no order it deletes the rows
  with that customer id and returns the customer row read before the deletion.
\<close>

theorem remove_customer_guarded_by_orders:
  assumes answered: "faults s = []"
    and cust: "find (\<lambda>c. cust_id c = cid) (customers (db s)) = Some cu"
  shows "(filter (\<lambda>r. o_cust_id r = cid) (orders (db s)) \<noteq> [] \<longrightarrow>
            remove_customer cid s =
              (Inl (CustomerDeleteError cid
                      (length (filter (\<lambda>r. o_cust_id r = cid) (orders (db s))))), s))
       \<and> (filter (\<lambda>r. o_cust_id r = cid) (orders (db s)) = [] \<longrightarrow>
            remove_customer cid s =
              (Inr cu, \<lparr>db = (db s)\<lparr>customers :=
                             filter (\<lambda>c. cust_id c \<noteq> cid) (customers (db s))\<rparr>,
                        faults = []\<rparr>))"
proof -
  have q: "quiet (Suc 0) []" by simp
  from answered cust show ?thesis
    by (cases s)
       (simp add: remove_customer_def get_customer_by_id_quiet [OF q]
          list_orders_by_customer_quiet delete_customer_quiet)
qed

theorem remove_customer_guarded_by_orders_witness:
  "faults shop_with_order = [] \<and> faults shop = []
   \<and> find (\<lambda>c. cust_id c = 1) (customers (db shop_with_order)) = Some alice
   \<and> remove_customer 1 shop_with_order = (Inl (CustomerDeleteError 1 1), shop_with_order)
   \<and> remove_customer 1 shop = (Inr alice, shop\<lparr>db := (db shop)\<lparr>customers := []\<rparr>\<rparr>)"
proof -
  have f: "faults shop_with_order = []" "faults shop = []"
    by (simp_all add: shop_with_order_def shop_def)
  have c: "find (\<lambda>c. cust_id c = 1) (customers (db shop_with_order)) = Some alice"
    "find (\<lambda>c. cust_id c = 1) (customers (db shop)) = Some alice"
    by (simp_all add: shop_with_order_def shop_def alice_def)
  from remove_customer_guarded_by_orders [OF f(1) c(1)]
  have one: "remove_customer 1 shop_with_order = (Inl (CustomerDeleteError 1 1), shop_with_order)"
    by (simp add: shop_with_order_def)
  from remove_customer_guarded_by_orders [OF f(2) c(2)]
  have two: "remove_customer 1 shop = (Inr alice, shop\<lparr>db := (db shop)\<lparr>customers := []\<rparr>\<rparr>)"
    by (simp add: shop_def alice_def)
  from f c one two show ?thesis by simp
qed

end
